theory Spec2Isabelle
  imports Complex_Main "HOL-Library.List_Lexorder" "HOL-Library.Product_Lexorder"
    "HOL-Library.Multiset" "HOL-Library.Log_Nat" "HOL-Library.Code_Target_Numeral"
begin

section \<open>JavaScript values used by app.js\<close>

text \<open>
  A JavaScript number is a finite double, one of the two infinities, or NaN. A finite double
  is the rational it denotes; the two zeros are one, since app.js tells them apart nowhere.
  Every arithmetic result and every conversion from text goes through \<open>to_double\<close>, which
  rounds the exact value to the nearest double, ties to even, with gradual underflow, and
  overflows to an infinity.
\<close>

datatype jsnum = Fin rat | PInf | NInf | NaN

text \<open>
  A field of a release record as \<open>JSON.parse\<close> delivers it: absent (\<open>undefined\<close>),
  \<open>null\<close>, a number or a string. \<open>Num i\<close> is the number \<open>JSON.parse\<close> makes of the integer
  literal \<open>i\<close>, that is \<open>to_double i\<close>: build numbers and timestamps are integers.
  A \<open>char\<close> is one UTF-16 code unit below 256.
\<close>

datatype jsval = Undefined | Null | Num int | Str string

text \<open>
  The binary exponent of a positive rational \<open>n / d\<close>: the lengths of \<open>n\<close> and \<open>d\<close> in bits
  give it up to one, and a comparison settles it.
\<close>

definition ilog2 :: "rat \<Rightarrow> int" where
  "ilog2 a =
     (let (n, d) = quotient_of a;
          k = bitlen n - bitlen d
      in if 2 powi k \<le> a then k else k - 1)"

definition round_half_even :: "rat \<Rightarrow> int" where
  "round_half_even x =
     (let f = \<lfloor>x\<rfloor>;
          r = x - of_int f
      in if r < 1 / 2 then f
         else if 1 / 2 < r then f + 1
         else if even f then f else f + 1)"

text \<open>
  The spacing of the doubles around a positive \<open>a\<close>: 52 binary places below its exponent,
  and \<open>2^-1074\<close> for every \<open>a\<close> below \<open>2^-1022\<close>. \<open>round_abs a\<close> is the multiple of that spacing
  nearest to \<open>a\<close>, the even one of two equally near.
\<close>

definition ulp_of :: "rat \<Rightarrow> rat" where
  "ulp_of a = 2 powi (max (ilog2 a) (- 1022) - 52)"

definition round_abs :: "rat \<Rightarrow> rat" where
  "round_abs a = of_int (round_half_even (a / ulp_of a)) * ulp_of a"

definition inf_bound :: rat where
  "inf_bound = 2 powi 1024"

definition to_double :: "rat \<Rightarrow> jsnum" where
  "to_double q =
     (if q = 0 then Fin 0
      else (let r = round_abs \<bar>q\<bar>
            in if inf_bound \<le> r then (if q < 0 then NInf else PInf)
               else Fin (if q < 0 then - r else r)))"

fun js_sub :: "jsnum \<Rightarrow> jsnum \<Rightarrow> jsnum" where
  "js_sub NaN y = NaN"
| "js_sub x NaN = NaN"
| "js_sub (Fin a) (Fin b) = to_double (a - b)"
| "js_sub (Fin a) PInf = NInf"
| "js_sub (Fin a) NInf = PInf"
| "js_sub PInf PInf = NaN"
| "js_sub PInf y = PInf"
| "js_sub NInf NInf = NaN"
| "js_sub NInf y = NInf"

fun js_neg :: "jsnum \<Rightarrow> jsnum" where
  "js_neg (Fin a) = Fin (- a)"
| "js_neg PInf = NInf"
| "js_neg NInf = PInf"
| "js_neg NaN = NaN"

fun js_mul :: "jsnum \<Rightarrow> jsnum \<Rightarrow> jsnum" where
  "js_mul NaN y = NaN"
| "js_mul x NaN = NaN"
| "js_mul (Fin a) (Fin b) = to_double (a * b)"
| "js_mul (Fin a) PInf = (if a = 0 then NaN else if 0 < a then PInf else NInf)"
| "js_mul (Fin a) NInf = (if a = 0 then NaN else if 0 < a then NInf else PInf)"
| "js_mul PInf (Fin b) = (if b = 0 then NaN else if 0 < b then PInf else NInf)"
| "js_mul NInf (Fin b) = (if b = 0 then NaN else if 0 < b then NInf else PInf)"
| "js_mul PInf PInf = PInf"
| "js_mul PInf NInf = NInf"
| "js_mul NInf PInf = NInf"
| "js_mul NInf NInf = PInf"

text \<open>\<open>Number.isFinite\<close>, the truthiness of a number, \<open>x || y\<close> and \<open>x !== y\<close> on numbers.\<close>

fun isFinite :: "jsnum \<Rightarrow> bool" where
  "isFinite (Fin a) = True"
| "isFinite x = False"

fun truthy_num :: "jsnum \<Rightarrow> bool" where
  "truthy_num (Fin a) = (a \<noteq> 0)"
| "truthy_num NaN = False"
| "truthy_num x = True"

definition js_or :: "jsnum \<Rightarrow> jsnum \<Rightarrow> jsnum" where
  "js_or x y = (if truthy_num x then x else y)"

definition strict_ne :: "jsnum \<Rightarrow> jsnum \<Rightarrow> bool" where
  "strict_ne x y = (if x = NaN then True else if y = NaN then True else x \<noteq> y)"

fun truthy :: "jsval \<Rightarrow> bool" where
  "truthy Undefined = False"
| "truthy Null = False"
| "truthy (Num i) = (i \<noteq> 0)"
| "truthy (Str s) = (s \<noteq> [])"

section \<open>Strings\<close>

definition is_digit :: "char \<Rightarrow> bool" where
  "is_digit c = (48 \<le> (of_char c :: nat) \<and> (of_char c :: nat) \<le> 57)"

definition digit_val :: "char \<Rightarrow> nat" where
  "digit_val c = of_char c - 48"

text \<open>White space and line terminators below code 256: TAB, LF, VT, FF, CR, SP, NBSP.\<close>

definition is_ws :: "char \<Rightarrow> bool" where
  "is_ws c = ((of_char c :: nat) \<in> {9, 10, 11, 12, 13, 32, 160})"

definition trim :: "string \<Rightarrow> string" where
  "trim s = rev (dropWhile is_ws (rev (dropWhile is_ws s)))"

text \<open>\<open>toLowerCase\<close>: A-Z, and the Latin-1 capitals U+00C0..U+00DE without U+00D7.\<close>

definition lower_char :: "char \<Rightarrow> char" where
  "lower_char c =
     (let k = (of_char c :: nat)
      in if 65 \<le> k \<and> k \<le> 90 then char_of (k + 32)
         else if 192 \<le> k \<and> k \<le> 222 \<and> k \<noteq> 215 then char_of (k + 32)
         else c)"

definition toLowerCase :: "string \<Rightarrow> string" where
  "toLowerCase s = map lower_char s"

fun starts_with :: "string \<Rightarrow> string \<Rightarrow> bool" where
  "starts_with [] s = True"
| "starts_with (p # ps) [] = False"
| "starts_with (p # ps) (c # cs) = (p = c \<and> starts_with ps cs)"

text \<open>\<open>hay.includes(q)\<close>: \<open>q\<close> occurs in \<open>hay\<close> as a contiguous run.\<close>

fun includes_str :: "string \<Rightarrow> string \<Rightarrow> bool" where
  "includes_str [] q = (q = [])"
| "includes_str (c # cs) q = (starts_with q (c # cs) \<or> includes_str cs q)"

text \<open>\<open>s.split(c)\<close> with a one-character separator: every occurrence splits.\<close>

fun split_on :: "char \<Rightarrow> string \<Rightarrow> string list" where
  "split_on c [] = [[]]"
| "split_on c (x # xs) =
     (if x = c then [] # split_on c xs
      else (case split_on c xs of [] \<Rightarrow> [[x]] | p # ps \<Rightarrow> (x # p) # ps))"

text \<open>\<open>xs.join(' ')\<close> on an array of strings.\<close>

fun join_sp :: "string list \<Rightarrow> string" where
  "join_sp [] = []"
| "join_sp [x] = x"
| "join_sp (x # y # ys) = x @ CHR '' '' # join_sp (y # ys)"

text \<open>\<open>a < b\<close> on strings: code unit by code unit, a proper prefix is smaller.\<close>

fun str_less :: "string \<Rightarrow> string \<Rightarrow> bool" where
  "str_less [] [] = False"
| "str_less [] (y # ys) = True"
| "str_less (x # xs) [] = False"
| "str_less (x # xs) (y # ys) =
     (if (of_char x :: nat) < of_char y then True
      else if (of_char y :: nat) < of_char x then False
      else str_less xs ys)"

text \<open>The decimal value of a run of digits, and \<open>String(n)\<close> for an integer.\<close>

definition digits_val :: "string \<Rightarrow> nat" where
  "digits_val ds = foldl (\<lambda>acc c. 10 * acc + digit_val c) 0 ds"

fun show_nat :: "nat \<Rightarrow> string" where
  "show_nat k = (if k < 10 then [char_of (48 + k)]
                 else show_nat (k div 10) @ [char_of (48 + k mod 10)])"

declare show_nat.simps [simp del]

definition show_int :: "int \<Rightarrow> string" where
  "show_int i = (if i < 0 then CHR ''-'' # show_nat (nat (- i)) else show_nat (nat i))"

text \<open>
  \<open>String(x)\<close> for an integer double \<open>x\<close> above \<open>2^53\<close>: the fewest digits \<open>s\<close> (\<open>k\<close> of them)
  such that \<open>s * 10^(n-k)\<close> still reads as \<open>x\<close>, the nearest to \<open>x\<close> of such \<open>s\<close>; printed in
  full up to 21 digits and with an exponent beyond. Below \<open>x\<close> and above it only the two
  multiples of \<open>10^(n-k)\<close> next to \<open>x\<close> can read as \<open>x\<close>, and the power of ten above \<open>x\<close> with
  one digit.
\<close>

definition reads_as :: "nat \<Rightarrow> nat \<Rightarrow> nat \<Rightarrow> nat \<Rightarrow> bool" where
  "reads_as x s n k =
     (10 ^ (k - 1) \<le> s \<and> s < 10 ^ k \<and> k \<le> n
      \<and> to_double (of_nat (s * 10 ^ (n - k))) = Fin (of_nat x))"

definition digit_choices :: "nat \<Rightarrow> nat \<Rightarrow> (nat \<times> nat) list" where
  "digit_choices x k =
     (let D = length (show_nat x);
          lo = x div 10 ^ (D - k)
      in filter (\<lambda>(s, n). reads_as x s n k)
           ([(lo, D), (lo + 1, D)] @ (if k = 1 then [(1, D + 1)] else [])))"

definition nearer :: "nat \<Rightarrow> nat \<Rightarrow> nat \<times> nat \<Rightarrow> nat \<times> nat \<Rightarrow> nat \<times> nat" where
  "nearer x k c1 c2 =
     (let d1 = \<bar>int (fst c1 * 10 ^ (snd c1 - k)) - int x\<bar>;
          d2 = \<bar>int (fst c2 * 10 ^ (snd c2 - k)) - int x\<bar>
      in if d1 < d2 then c1 else if d2 < d1 then c2 else if even (fst c1) then c1 else c2)"

fun shortest :: "nat \<Rightarrow> nat list \<Rightarrow> (nat \<times> nat \<times> nat) option" where
  "shortest x [] = None"
| "shortest x (k # ks) =
     (case digit_choices x k of
        [] \<Rightarrow> shortest x ks
      | c # cs \<Rightarrow> (let b = foldl (nearer x k) c cs in Some (fst b, snd b, k)))"

definition big_to_string :: "nat \<Rightarrow> string" where
  "big_to_string x =
     (case shortest x [1..<Suc (length (show_nat x))] of
        None \<Rightarrow> show_nat x
      | Some (s, n, k) \<Rightarrow>
          if n \<le> 21 then show_nat s @ replicate (n - k) CHR ''0''
          else if k = 1 then show_nat s @ ''e+'' @ show_nat (n - 1)
          else take 1 (show_nat s) @ ''.'' @ drop 1 (show_nat s) @ ''e+'' @ show_nat (n - 1))"

text \<open>\<open>String(x)\<close> for an integer double: up to \<open>2^53\<close> every integer prints as it is.\<close>

definition show_number :: "int \<Rightarrow> string" where
  "show_number z =
     (if \<bar>z\<bar> \<le> 9007199254740992 then show_int z
      else if z < 0 then CHR ''-'' # big_to_string (nat (- z))
      else big_to_string (nat z))"

text \<open>\<open>String(v)\<close>, which is also the string an array element contributes to \<open>join\<close>.\<close>

fun to_str :: "jsval \<Rightarrow> string" where
  "to_str Undefined = ''undefined''"
| "to_str Null = ''null''"
| "to_str (Num i) =
     (case to_double (of_int i) of
        Fin r \<Rightarrow> show_number \<lfloor>r\<rfloor>
      | PInf \<Rightarrow> ''Infinity''
      | NInf \<Rightarrow> ''-Infinity''
      | NaN \<Rightarrow> ''NaN'')"
| "to_str (Str s) = s"

definition str_or_empty :: "jsval \<Rightarrow> string" where
  "str_or_empty v = (if truthy v then to_str v else [])"

section \<open>Number(x) and parseInt(s, 10)\<close>

definition strip_sign :: "string \<Rightarrow> bool \<times> string" where
  "strip_sign s =
     (case s of
        [] \<Rightarrow> (False, [])
      | c # cs \<Rightarrow> if c = CHR ''-'' then (True, cs)
                 else if c = CHR ''+'' then (False, cs) else (False, s))"

definition signed :: "bool \<Rightarrow> rat \<Rightarrow> rat" where
  "signed neg q = (if neg then - q else q)"

text \<open>The value of a digit in a radix up to 16; 99 for any other character.\<close>

definition hex_val :: "char \<Rightarrow> nat" where
  "hex_val c =
     (let k = (of_char c :: nat)
      in if 48 \<le> k \<and> k \<le> 57 then k - 48
         else if 97 \<le> k \<and> k \<le> 102 then k - 87
         else if 65 \<le> k \<and> k \<le> 70 then k - 55
         else 99)"

definition radix_literal :: "nat \<Rightarrow> string \<Rightarrow> jsnum" where
  "radix_literal r ds =
     (if ds \<noteq> [] \<and> list_all (\<lambda>c. hex_val c < r) ds
      then to_double (of_nat (foldl (\<lambda>acc c. r * acc + hex_val c) 0 ds))
      else NaN)"

definition scale10 :: "nat \<Rightarrow> int \<Rightarrow> rat" where
  "scale10 m k = (if 0 \<le> k then of_nat m * 10 ^ nat k else of_nat m / 10 ^ nat (- k))"

definition exponent_part :: "string \<Rightarrow> int option" where
  "exponent_part s =
     (case s of
        [] \<Rightarrow> Some 0
      | c # cs \<Rightarrow>
          if c = CHR ''e'' \<or> c = CHR ''E''
          then (let (neg, ds) = strip_sign cs
                in if ds \<noteq> [] \<and> list_all is_digit ds
                   then Some (if neg then - int (digits_val ds) else int (digits_val ds))
                   else None)
          else None)"

text \<open>
  StrDecimalLiteral: a sign, then \<open>Infinity\<close>, or digits with an optional fraction and an
  optional exponent; at least one digit before or after the dot.
\<close>

definition str_decimal :: "string \<Rightarrow> jsnum" where
  "str_decimal t =
     (let (neg, u) = strip_sign t
      in if u = ''Infinity'' then (if neg then NInf else PInf)
         else
           (let ip = takeWhile is_digit u;
                r1 = dropWhile is_digit u;
                dot = (case r1 of [] \<Rightarrow> False | c # cs \<Rightarrow> c = CHR ''.'');
                fp = (if dot then takeWhile is_digit (tl r1) else []);
                r2 = (if dot then dropWhile is_digit (tl r1) else r1)
            in if ip = [] \<and> fp = [] then NaN
               else (case exponent_part r2 of
                       None \<Rightarrow> NaN
                     | Some e \<Rightarrow>
                         to_double (signed neg (scale10 (digits_val (ip @ fp)) (e - int (length fp)))))))"

text \<open>
  StringToNumber: white space is trimmed, the empty string is 0, \<open>0x\<close>, \<open>0o\<close> and \<open>0b\<close>
  introduce unsigned literals in radix 16, 8 and 2, anything else outside the decimal
  grammar is NaN. The exact value of the literal is rounded, as the engines in use do
  (ECMAScript would let a host drop the digits after the twentieth).
\<close>

definition string_to_number :: "string \<Rightarrow> jsnum" where
  "string_to_number s =
     (case trim s of
        [] \<Rightarrow> Fin 0
      | [c] \<Rightarrow> str_decimal [c]
      | c # d # ds \<Rightarrow>
          if c = CHR ''0'' \<and> (d = CHR ''x'' \<or> d = CHR ''X'') then radix_literal 16 ds
          else if c = CHR ''0'' \<and> (d = CHR ''o'' \<or> d = CHR ''O'') then radix_literal 8 ds
          else if c = CHR ''0'' \<and> (d = CHR ''b'' \<or> d = CHR ''B'') then radix_literal 2 ds
          else str_decimal (c # d # ds))"

text \<open>\<open>Number(x)\<close>.\<close>

fun to_number :: "jsval \<Rightarrow> jsnum" where
  "to_number Undefined = NaN"
| "to_number Null = Fin 0"
| "to_number (Num i) = to_double (of_int i)"
| "to_number (Str s) = string_to_number s"

text \<open>
  \<open>parseInt(s, 10)\<close>: leading white space is skipped, a sign is read, then the longest run
  of decimal digits; no digit gives NaN.
\<close>

definition parseInt :: "string \<Rightarrow> jsnum" where
  "parseInt s =
     (let (neg, u) = strip_sign (dropWhile is_ws s);
          ds = takeWhile is_digit u
      in if ds = [] then NaN else to_double (signed neg (of_nat (digits_val ds))))"

section \<open>Helpers of app.js\<close>

text \<open>
  \<open>new Date(d).getTime()\<close>. What \<open>Date.parse\<close> accepts beyond the ISO format is left to
  the host, so the parser of date strings is the parameter \<open>dp\<close>: \<open>None\<close> is an invalid
  date, \<open>Some t\<close> the time value in milliseconds. A time value is an integer of at most
  \<open>8.64e15\<close> in magnitude (TimeClip); every such integer is a double, so a number in that
  range is its own time value and any other number is an invalid date.
\<close>

type_synonym date_parser = "string \<Rightarrow> int option"

fun getTime :: "date_parser \<Rightarrow> jsval \<Rightarrow> jsnum" where
  "getTime dp Undefined = NaN"
| "getTime dp Null = Fin 0"
| "getTime dp (Num i) = (if \<bar>i\<bar> \<le> 8640000000000000 then Fin (of_int i) else NaN)"
| "getTime dp (Str s) =
     (case dp s of
        None \<Rightarrow> NaN
      | Some t \<Rightarrow> if \<bar>t\<bar> \<le> 8640000000000000 then Fin (of_int t) else NaN)"

definition toDate :: "date_parser \<Rightarrow> jsval \<Rightarrow> jsnum" where
  "toDate dp d = (let t = getTime dp d in if isFinite t then t else NInf)"

definition toBuild :: "jsval \<Rightarrow> jsnum" where
  "toBuild b = (let n = to_number b in if isFinite n then n else NInf)"

text \<open>
  \<open>/^[vV]?\d+\.\d+\.\d+(?:-[0-9A-Za-z.-]+)?$/\<close>. No digit run can give a character
  back to what follows it, so the expression is matched left to right.
\<close>

definition digits1 :: "string \<Rightarrow> string option" where
  "digits1 s = (if takeWhile is_digit s = [] then None else Some (dropWhile is_digit s))"

definition is_pre_char :: "char \<Rightarrow> bool" where
  "is_pre_char c =
     (let k = (of_char c :: nat)
      in (48 \<le> k \<and> k \<le> 57) \<or> (65 \<le> k \<and> k \<le> 90) \<or> (97 \<le> k \<and> k \<le> 122)
         \<or> c = CHR ''.'' \<or> c = CHR ''-'')"

definition opt_v :: "string \<Rightarrow> string" where
  "opt_v s = (case s of [] \<Rightarrow> [] | c # cs \<Rightarrow> if c = CHR ''v'' \<or> c = CHR ''V'' then cs else s)"

definition dot_digits :: "string \<Rightarrow> string option" where
  "dot_digits s = (case s of [] \<Rightarrow> None | c # cs \<Rightarrow> if c = CHR ''.'' then digits1 cs else None)"

definition pre_suffix :: "string \<Rightarrow> bool" where
  "pre_suffix s =
     (case s of [] \<Rightarrow> True
      | c # cs \<Rightarrow> c = CHR ''-'' \<and> cs \<noteq> [] \<and> list_all is_pre_char cs)"

definition looksLikeSemver :: "jsval \<Rightarrow> bool" where
  "looksLikeSemver v =
     (case digits1 (opt_v (str_or_empty v)) of
        None \<Rightarrow> False
      | Some r1 \<Rightarrow>
          (case dot_digits r1 of
             None \<Rightarrow> False
           | Some r2 \<Rightarrow>
               (case dot_digits r2 of
                  None \<Rightarrow> False
                | Some r3 \<Rightarrow> pre_suffix r3)))"

section \<open>Semver compare\<close>

record semver =
  ver_n :: "jsnum list"
  ver_pre :: string

text \<open>\<open>nums[i] || 0\<close>: an index past the end reads \<open>undefined\<close>.\<close>

definition nth_or0 :: "jsnum list \<Rightarrow> nat \<Rightarrow> jsnum" where
  "nth_or0 nums i = (if i < length nums then js_or (nums ! i) (Fin 0) else Fin 0)"

text \<open>
  \<open>const [core, pre=''] = String(v || '').replace(/^v/i,'').split('-')\<close>: the first two
  pieces of the split; \<open>split\<close> always returns at least one piece.
\<close>

definition parse :: "jsval \<Rightarrow> semver" where
  "parse v =
     (let parts = split_on CHR ''-'' (opt_v (str_or_empty v));
          core = (case parts of [] \<Rightarrow> [] | c # ps \<Rightarrow> c);
          pre = (case parts of c # p # ps \<Rightarrow> p | _ \<Rightarrow> []);
          nums = map (\<lambda>n. js_or (parseInt n) (Fin 0)) (split_on CHR ''.'' core)
      in \<lparr>ver_n = [nth_or0 nums 0, nth_or0 nums 1, nth_or0 nums 2], ver_pre = pre\<rparr>)"

text \<open>The loop \<open>for(let i=0;i<3;i++)\<close> over the indices it visits.\<close>

fun first_diff :: "nat list \<Rightarrow> semver \<Rightarrow> semver \<Rightarrow> jsnum option" where
  "first_diff [] A B = None"
| "first_diff (i # is) A B =
     (if strict_ne (ver_n A ! i) (ver_n B ! i) then Some (js_sub (ver_n A ! i) (ver_n B ! i))
      else first_diff is A B)"

definition cmpSemver :: "jsval \<Rightarrow> jsval \<Rightarrow> jsnum" where
  "cmpSemver a b =
     (let A = parse a; B = parse b
      in case first_diff [0, 1, 2] A B of
           Some d \<Rightarrow> d
         | None \<Rightarrow>
             if ver_pre A \<noteq> [] \<and> ver_pre B = [] then Fin (- 1)
             else if ver_pre A = [] \<and> ver_pre B \<noteq> [] then Fin 1
             else if str_less (ver_pre A) (ver_pre B) then Fin (- 1)
             else if str_less (ver_pre B) (ver_pre A) then Fin 1
             else Fin 0)"

section \<open>Release records and the sorters\<close>

text \<open>
  The fields of a release that the ordering and the filter read (\<open>links\<close> is read by the
  renderer only). \<open>changes\<close> and \<open>tags\<close> are absent or arrays of strings.
\<close>

record release =
  version :: jsval
  date :: jsval
  channel :: jsval
  build :: jsval
  changes :: "string list option"
  tags :: "string list option"

datatype sortkey = BuildDesc | BuildAsc | SemverDesc | SemverAsc | DateDesc | DateAsc

fun sorter :: "date_parser \<Rightarrow> sortkey \<Rightarrow> release \<Rightarrow> release \<Rightarrow> jsnum" where
  "sorter dp BuildDesc a b =
     js_or (js_or (js_sub (toBuild (build b)) (toBuild (build a)))
                  (js_sub (toDate dp (date b)) (toDate dp (date a))))
           (cmpSemver (version b) (version a))"
| "sorter dp BuildAsc a b =
     js_or (js_or (js_sub (toBuild (build a)) (toBuild (build b)))
                  (js_sub (toDate dp (date a)) (toDate dp (date b))))
           (cmpSemver (version a) (version b))"
| "sorter dp SemverDesc a b =
     js_or (js_mul (cmpSemver (version a) (version b)) (Fin (- 1)))
           (js_sub (toDate dp (date b)) (toDate dp (date a)))"
| "sorter dp SemverAsc a b =
     js_or (cmpSemver (version a) (version b))
           (js_sub (toDate dp (date a)) (toDate dp (date b)))"
| "sorter dp DateDesc a b =
     js_or (js_sub (toDate dp (date b)) (toDate dp (date a)))
           (js_sub (toBuild (build b)) (toBuild (build a)))"
| "sorter dp DateAsc a b =
     js_or (js_sub (toDate dp (date a)) (toDate dp (date b)))
           (js_sub (toBuild (build a)) (toBuild (build b)))"

text \<open>The own keys of the object \<open>sorters\<close>.\<close>

definition sorters :: "(string \<times> sortkey) list" where
  "sorters =
     [(''build-desc'', BuildDesc), (''build-asc'', BuildAsc),
      (''semver-desc'', SemverDesc), (''semver-asc'', SemverAsc),
      (''date-desc'', DateDesc), (''date-asc'', DateAsc)]"

section \<open>Choosing a default sort\<close>

definition pickDefaultSort :: "release list \<Rightarrow> string" where
  "pickDefaultSort arr =
     (let hasNumericBuild = list_ex (\<lambda>r. isFinite (to_number (build r))) arr
      in if hasNumericBuild then ''build-desc''
         else (let allLookSemver = list_all (\<lambda>r. looksLikeSemver (version r)) arr
               in if allLookSemver then ''semver-desc'' else ''date-desc''))"

section \<open>Array.prototype.sort\<close>

text \<open>
  The sort calls the comparator on pairs of elements and reads the result as a number, NaN
  as \<open>+0\<close>; only the sign counts. Since ES2019 the sort is stable, and for a comparator
  that orders the elements consistently the result is the one stable sorted arrangement,
  whichever algorithm the host runs: it is computed here by stable insertion, each element
  going in front of the first one it does not have to follow.
\<close>

fun positive :: "jsnum \<Rightarrow> bool" where
  "positive (Fin v) = (0 < v)"
| "positive PInf = True"
| "positive x = False"

fun negative :: "jsnum \<Rightarrow> bool" where
  "negative (Fin v) = (v < 0)"
| "negative NInf = True"
| "negative x = False"

fun insert_by :: "('a \<Rightarrow> 'a \<Rightarrow> jsnum) \<Rightarrow> 'a \<Rightarrow> 'a list \<Rightarrow> 'a list" where
  "insert_by c x [] = [x]"
| "insert_by c x (y # ys) = (if positive (c x y) then y # insert_by c x ys else x # y # ys)"

fun stable_sort :: "('a \<Rightarrow> 'a \<Rightarrow> jsnum) \<Rightarrow> 'a list \<Rightarrow> 'a list" where
  "stable_sort c [] = []"
| "stable_sort c (x # xs) = insert_by c x (stable_sort c xs)"

section \<open>Looking a name up in the object sorters\<close>

text \<open>
  \<open>sorters\<close> is an object literal, so \<open>name in sorters\<close> and \<open>sorters[name]\<close> also find
  what it inherits from \<open>Object.prototype\<close>. Called by the sort with \<open>this\<close> undefined
  on two records, \<open>constructor\<close> and \<open>toString\<close> return a value that reads as NaN, every
  other inherited function throws a TypeError when it converts \<open>this\<close> to an object, and
  \<open>__proto__\<close> is an object that cannot be called.
\<close>

datatype comparefn = Registered sortkey | ProtoTie | ProtoThrows | ProtoObject

datatype error = TypeError | LoadFailed

definition proto_prop :: "string \<Rightarrow> comparefn option" where
  "proto_prop name =
     (if name \<in> set [''constructor'', ''toString''] then Some ProtoTie
      else if name \<in> set [''valueOf'', ''toLocaleString'', ''hasOwnProperty'',
                ''isPrototypeOf'', ''propertyIsEnumerable'', ''__defineGetter__'',
                ''__defineSetter__'', ''__lookupGetter__'', ''__lookupSetter__'']
      then Some ProtoThrows
      else if name = ''__proto__'' then Some ProtoObject
      else None)"

definition get_prop :: "string \<Rightarrow> comparefn option" where
  "get_prop name =
     (case map_of sorters name of Some k \<Rightarrow> Some (Registered k) | None \<Rightarrow> proto_prop name)"

definition in_sorters :: "string \<Rightarrow> bool" where
  "in_sorters name = (case get_prop name of None \<Rightarrow> False | Some f \<Rightarrow> True)"

text \<open>
  \<open>xs.sort(sorters[name])\<close>. A comparator that is not callable is refused before anything
  is compared; a throwing one throws at the first comparison, which an array of two or
  more elements needs; with \<open>undefined\<close> the elements are compared as strings, and every
  record prints as \<open>[object Object]\<close>.
\<close>

fun array_sort :: "date_parser \<Rightarrow> comparefn option \<Rightarrow> release list \<Rightarrow> error + release list" where
  "array_sort dp None xs = Inr xs"
| "array_sort dp (Some (Registered k)) xs = Inr (stable_sort (sorter dp k) xs)"
| "array_sort dp (Some ProtoTie) xs = Inr xs"
| "array_sort dp (Some ProtoThrows) xs = (if length xs < 2 then Inr xs else Inl TypeError)"
| "array_sort dp (Some ProtoObject) xs = Inl TypeError"

section \<open>The filter\<close>

definition or_empty :: "string list option \<Rightarrow> string list" where
  "or_empty xs = (case xs of None \<Rightarrow> [] | Some ys \<Rightarrow> ys)"

text \<open>The haystack of a record: the fields, \<open>filter(Boolean)\<close>, \<open>join(' ')\<close>, lower case.\<close>

definition hay :: "release \<Rightarrow> string" where
  "hay it =
     toLowerCase (join_sp (map to_str (filter truthy
       ([version it, date it, channel it, build it]
        @ map Str (or_empty (changes it)) @ map Str (or_empty (tags it))))))"

definition matches :: "string \<Rightarrow> release \<Rightarrow> bool" where
  "matches q it = (if q = [] then True else includes_str (hay it) q)"

section \<open>The session state and its three operations\<close>

record state =
  data :: "release list"
  filtered :: "release list"
  sort_name :: string

definition init_state :: state where
  "init_state = \<lparr>data = [], filtered = [], sort_name = ''build-desc''\<rparr>"

text \<open>
  Each operation returns the state it leaves and the error it ended with, if any: an
  exception leaves the assignments made before it.
\<close>

definition applyFilter :: "date_parser \<Rightarrow> string \<Rightarrow> state \<Rightarrow> error option \<times> state" where
  "applyFilter dp input st =
     (let q = trim (toLowerCase input)
      in case array_sort dp (get_prop (sort_name st)) (filter (matches q) (data st)) of
           Inl e \<Rightarrow> (Some e, st)
         | Inr xs \<Rightarrow> (None, st\<lparr>filtered := xs\<rparr>))"

definition setSort :: "date_parser \<Rightarrow> string \<Rightarrow> state \<Rightarrow> error option \<times> state" where
  "setSort dp v st =
     (let st1 = st\<lparr>sort_name := (if in_sorters v then v else sort_name st)\<rparr>
      in case array_sort dp (get_prop (sort_name st1)) (filtered st1) of
           Inl e \<Rightarrow> (Some e, st1)
         | Inr xs \<Rightarrow> (None, st1\<lparr>filtered := xs\<rparr>))"

text \<open>
  \<open>load\<close>, from the decoded array on: \<open>fetched\<close> is \<open>None\<close> when the request or the
  decoding failed, \<open>fromUrl\<close> is \<open>params.get('sort')\<close>, \<open>None\<close> for no such parameter.
  Every exception is caught inside \<open>load\<close>.
\<close>

definition load :: "date_parser \<Rightarrow> release list option \<Rightarrow> string option \<Rightarrow> state \<Rightarrow> error option \<times> state" where
  "load dp fetched fromUrl st =
     (case fetched of
        None \<Rightarrow> (Some LoadFailed, st)
      | Some arr \<Rightarrow>
          (let st1 = st\<lparr>data := arr\<rparr>;
               st2 = st1\<lparr>sort_name :=
                       (case fromUrl of
                          None \<Rightarrow> ''build-asc''
                        | Some u \<Rightarrow> if u \<noteq> [] \<and> in_sorters u then u else ''build-asc'')\<rparr>
           in case array_sort dp (get_prop (sort_name st2)) (data st2) of
                Inl e \<Rightarrow> (Some e, st2)
              | Inr xs \<Rightarrow> (None, st2\<lparr>filtered := xs\<rparr>)))"

section \<open>The filter as the specification words it\<close>

text \<open>
  A field is skipped when it is absent or empty; a number, 0 included, is present and
  enters the haystack as \<open>String(n)\<close>.
\<close>

fun present :: "jsval \<Rightarrow> bool" where
  "present Undefined = False"
| "present Null = False"
| "present (Num i) = True"
| "present (Str s) = (s \<noteq> [])"

definition spec_hay :: "release \<Rightarrow> string" where
  "spec_hay it =
     toLowerCase (join_sp (map to_str (filter present
       ([version it, date it, channel it, build it]
        @ map Str (or_empty (changes it)) @ map Str (or_empty (tags it))))))"

definition spec_matches :: "string \<Rightarrow> release \<Rightarrow> bool" where
  "spec_matches input it = includes_str (spec_hay it) (trim (toLowerCase input))"

section \<open>The parser and the heuristic as the specification words them\<close>

text \<open>
  The pre-release of a version is the whole text after its first dash.
\<close>

definition spec_pre :: "jsval \<Rightarrow> string" where
  "spec_pre v = drop 1 (dropWhile (\<lambda>c. c \<noteq> CHR ''-'') (opt_v (str_or_empty v)))"

text \<open>
  A build is numerically parseable when it is there (not absent, not empty) and converts
  to a finite number; the heuristic asks for one such build.
\<close>

definition numeric_build :: "jsval \<Rightarrow> bool" where
  "numeric_build b = (present b \<and> isFinite (to_number b))"

definition spec_pickDefaultSort :: "release list \<Rightarrow> string" where
  "spec_pickDefaultSort arr =
     (if list_ex (\<lambda>r. numeric_build (build r)) arr then ''build-desc''
      else if list_all (\<lambda>r. looksLikeSemver (version r)) arr then ''semver-desc''
      else ''date-desc'')"

section \<open>A date parser and sample records\<close>

text \<open>
  The date-only form \<open>YYYY-MM-DD\<close> of the ECMAScript date-time format, read as UTC
  midnight; every host parses it alike. Any other input is an invalid date here.
\<close>

definition days_from_civil :: "int \<Rightarrow> int \<Rightarrow> int \<Rightarrow> int" where
  "days_from_civil y m d =
     (let y1 = (if m \<le> 2 then y - 1 else y);
          era = y1 div 400;
          yoe = y1 - era * 400;
          doy = (153 * (if 2 < m then m - 3 else m + 9) + 2) div 5 + d - 1;
          doe = yoe * 365 + yoe div 4 - yoe div 100 + doy
      in era * 146097 + doe - 719468)"

definition days_in_month :: "int \<Rightarrow> int \<Rightarrow> int" where
  "days_in_month y m =
     (if m = 2
      then (if y mod 400 = 0 then 29 else if y mod 100 = 0 then 28
            else if y mod 4 = 0 then 29 else 28)
      else if m \<in> {4, 6, 9, 11} then 30 else 31)"

definition date_only :: date_parser where
  "date_only s =
     (if length s = 10 \<and> s ! 4 = CHR ''-'' \<and> s ! 7 = CHR ''-''
         \<and> list_all is_digit (take 4 s) \<and> list_all is_digit (take 2 (drop 5 s))
         \<and> list_all is_digit (drop 8 s)
      then (let y = int (digits_val (take 4 s));
                m = int (digits_val (take 2 (drop 5 s)));
                d = int (digits_val (drop 8 s))
            in if 1 \<le> m \<and> m \<le> 12 \<and> 1 \<le> d \<and> d \<le> days_in_month y m
               then Some (days_from_civil y m d * 86400000) else None)
      else None)"

definition rel :: "jsval \<Rightarrow> jsval \<Rightarrow> jsval \<Rightarrow> release" where
  "rel v d b =
     \<lparr>version = v, date = d, channel = Undefined, build = b, changes = None, tags = None\<rparr>"

section \<open>Order keys\<close>

text \<open>
  What a sorter compares, as keys in linear orders: a number other than NaN by its place
  on the extended line, a version by its three components and its pre-release, an empty
  pre-release last. The lists of character codes are ordered lexicographically.
\<close>

fun ekey :: "jsnum \<Rightarrow> int \<times> rat" where
  "ekey (Fin q) = (0, q)"
| "ekey PInf = (1, 0)"
| "ekey NInf = (- 1, 0)"
| "ekey NaN = (2, 0)"

definition codes :: "string \<Rightarrow> nat list" where
  "codes s = map of_char s"

definition vkey :: "jsval \<Rightarrow> (int \<times> rat) list \<times> bool \<times> nat list" where
  "vkey v = (map ekey (ver_n (parse v)), ver_pre (parse v) = [], codes (ver_pre (parse v)))"

definition bkey :: "release \<Rightarrow> int \<times> rat" where
  "bkey r = ekey (toBuild (build r))"

definition dkey :: "date_parser \<Rightarrow> release \<Rightarrow> int \<times> rat" where
  "dkey dp r = ekey (toDate dp (date r))"

text \<open>
  The key of a record under each sorter, compared lexicographically; the descending
  sorters compare the same key the other way round. Components a sorter does not read are
  constant.
\<close>

type_synonym order_key = "(int \<times> rat) \<times> (int \<times> rat) \<times> ((int \<times> rat) list \<times> bool \<times> nat list) \<times> (int \<times> rat)"

fun skey :: "date_parser \<Rightarrow> sortkey \<Rightarrow> release \<Rightarrow> order_key" where
  "skey dp BuildDesc r = (bkey r, dkey dp r, vkey (version r), (0, 0))"
| "skey dp BuildAsc r = (bkey r, dkey dp r, vkey (version r), (0, 0))"
| "skey dp SemverDesc r = ((0, 0), (0, 0), vkey (version r), dkey dp r)"
| "skey dp SemverAsc r = ((0, 0), (0, 0), vkey (version r), dkey dp r)"
| "skey dp DateDesc r = (dkey dp r, bkey r, ([], True, []), (0, 0))"
| "skey dp DateAsc r = (dkey dp r, bkey r, ([], True, []), (0, 0))"

fun descending :: "sortkey \<Rightarrow> bool" where
  "descending BuildDesc = True"
| "descending SemverDesc = True"
| "descending DateDesc = True"
| "descending k = False"

text \<open>
  Every finite double is an integer multiple of \<open>2^-1074\<close>, the smallest positive one.
\<close>

definition tiny :: rat where
  "tiny = 2 powi (- 1074)"

fun on_grid :: "jsnum \<Rightarrow> bool" where
  "on_grid (Fin q) = (\<exists>k::int. q = of_int k * tiny)"
| "on_grid x = True"

declare on_grid.simps(1) [simp del]

text \<open>
  A list is ordered by a comparator when no element has to follow a later one; two
  elements tie when neither has to follow the other.
\<close>

definition ordered_by :: "('a \<Rightarrow> 'a \<Rightarrow> jsnum) \<Rightarrow> 'a list \<Rightarrow> bool" where
  "ordered_by c xs = sorted_wrt (\<lambda>x y. \<not> positive (c x y)) xs"

definition ties :: "('a \<Rightarrow> 'a \<Rightarrow> jsnum) \<Rightarrow> 'a \<Rightarrow> 'a \<Rightarrow> bool" where
  "ties c x y = (\<not> positive (c x y) \<and> \<not> positive (c y x))"

section \<open>Rounding to a double\<close>

text \<open>
  \<open>ilog2\<close> is the binary exponent: \<open>2^(ilog2 a) \<le> a < 2^(ilog2 a + 1)\<close>.
\<close>

lemma ilog2_lower: assumes "0 < a" shows "2 powi (ilog2 a) \<le> a"
proof -
  obtain n d where nd: "quotient_of a = (n, d)" by (cases "quotient_of a")
  have d: "0 < d" using nd quotient_of_denom_pos by blast
  have a: "a = of_int n / of_int d" using nd quotient_of_div by blast
  have n: "0 < n" using assms a d by (simp add: zero_less_divide_iff)
  let ?k = "bitlen n - bitlen d"
  show ?thesis
  proof (cases "2 powi ?k \<le> a")
    case True
    then show ?thesis by (simp add: ilog2_def nd)
  next
    case False
    have bn: "1 \<le> bitlen n" using n bitlen_eq_zero_iff [of n] bitlen_nonneg [of n] by linarith
    have bd: "1 \<le> bitlen d" using d bitlen_eq_zero_iff [of d] bitlen_nonneg [of d] by linarith
    have "(2::int) ^ nat (bitlen n - 1) \<le> n" using bitlen_bounds [OF n] by blast
    then have "(of_int ((2::int) ^ nat (bitlen n - 1)) :: rat) \<le> of_int n" by (simp only: of_int_le_iff)
    then have ln: "(2::rat) powi (bitlen n - 1) \<le> of_int n"
      using bn by (simp add: power_int_def)
    have "d < 2 ^ nat (bitlen d)" using bitlen_bounds [OF d] by blast
    then have "(of_int d :: rat) < of_int ((2::int) ^ nat (bitlen d))" by (simp only: of_int_less_iff)
    then have ud: "(of_int d :: rat) < 2 powi (bitlen d)"
      using bd by (simp add: power_int_def)
    have pos: "(0::rat) < 2 powi (bitlen d)" by simp
    have "(2::rat) powi (?k - 1) = 2 powi (bitlen n - 1) / 2 powi (bitlen d)"
      by (simp add: power_int_diff)
    also have "\<dots> \<le> of_int n / 2 powi (bitlen d)"
      using ln pos by (simp add: divide_right_mono)
    also have "\<dots> \<le> of_int n / of_int d"
      using ud d n by (simp add: frac_le)
    finally have "2 powi (?k - 1) \<le> a" using a by simp
    then show ?thesis using False by (simp add: ilog2_def nd)
  qed
qed


lemma ilog2_upper: assumes "0 < a" shows "a < 2 powi (ilog2 a + 1)"
proof -
  obtain n d where nd: "quotient_of a = (n, d)" by (cases "quotient_of a")
  have d: "0 < d" using nd quotient_of_denom_pos by blast
  have a: "a = of_int n / of_int d" using nd quotient_of_div by blast
  have n: "0 < n" using assms a d by (simp add: zero_less_divide_iff)
  let ?k = "bitlen n - bitlen d"
  show ?thesis
  proof (cases "2 powi ?k \<le> a")
    case False
    then show ?thesis by (simp add: ilog2_def nd)
  next
    case True
    have bn: "1 \<le> bitlen n" using n bitlen_eq_zero_iff [of n] bitlen_nonneg [of n] by linarith
    have bd: "1 \<le> bitlen d" using d bitlen_eq_zero_iff [of d] bitlen_nonneg [of d] by linarith
    have "n < 2 ^ nat (bitlen n)" using bitlen_bounds [OF n] by blast
    then have "(of_int n :: rat) < of_int ((2::int) ^ nat (bitlen n))" by (simp only: of_int_less_iff)
    then have un: "(of_int n :: rat) < 2 powi (bitlen n)"
      using bn by (simp add: power_int_def)
    have "(2::int) ^ nat (bitlen d - 1) \<le> d" using bitlen_bounds [OF d] by blast
    then have "(of_int ((2::int) ^ nat (bitlen d - 1)) :: rat) \<le> of_int d" by (simp only: of_int_le_iff)
    then have ld: "(2::rat) powi (bitlen d - 1) \<le> of_int d"
      using bd by (simp add: power_int_def)
    have pos: "(0::rat) < 2 powi (bitlen d - 1)" by simp
    have "of_int n / of_int d \<le> of_int n / (2::rat) powi (bitlen d - 1)"
      using ld pos n d by (intro divide_left_mono) simp_all
    also have "\<dots> < 2 powi (bitlen n) / 2 powi (bitlen d - 1)"
      using un pos by (simp add: divide_strict_right_mono)
    also have "\<dots> = 2 powi (bitlen n - (bitlen d - 1))"
      by (simp add: power_int_diff)
    also have "bitlen n - (bitlen d - 1) = ?k + 1" by simp
    finally have "a < 2 powi (?k + 1)" using a by simp
    then show ?thesis using True by (simp add: ilog2_def nd)
  qed
qed

text \<open>
  What \<open>to_double\<close> returns is a multiple of \<open>2^-1074\<close>, it keeps the sign of such a multiple
  (no difference of two doubles underflows to zero), and it keeps every integer below
  \<open>2^53\<close> as it is.
\<close>

lemma tiny_pos: "0 < tiny"
  by (simp add: tiny_def)

lemma powi_tiny:
  assumes "- 1074 \<le> j"
  shows "(2::rat) powi j = of_int (2 ^ nat (j + 1074)) * tiny"
proof -
  have "(of_int (2 ^ nat (j + 1074)) :: rat) = 2 powi (j + 1074)"
    using assms by (simp add: power_int_def)
  then have "(of_int (2 ^ nat (j + 1074)) :: rat) * tiny = 2 powi (j + 1074) * 2 powi (- 1074)"
    by (simp only: tiny_def)
  also have "\<dots> = 2 powi (j + 1074 + (- 1074))"
    by (rule power_int_add [symmetric]) simp
  also have "\<dots> = 2 powi j" by simp
  finally show ?thesis by simp
qed

lemma ulp_pos: "0 < ulp_of a"
  by (simp add: ulp_of_def)

lemma ulp_grid: "\<exists>k::int. ulp_of a = of_int k * tiny"
  unfolding ulp_of_def by (rule exI, rule powi_tiny) simp

lemma round_half_even_int: "round_half_even (of_int k) = k"
  by (simp add: round_half_even_def)

lemma round_half_even_ge: "of_int k \<le> x \<Longrightarrow> k \<le> round_half_even x"
proof -
  assume "of_int k \<le> x"
  then have "k \<le> \<lfloor>x\<rfloor>" by (simp add: le_floor_iff)
  then show ?thesis by (auto simp: round_half_even_def Let_def)
qed

lemma round_abs_nonneg: "0 \<le> a \<Longrightarrow> 0 \<le> round_abs a"
proof -
  assume "0 \<le> a"
  then have "of_int 0 \<le> a / ulp_of a" using ulp_pos [of a] by simp
  then have "0 \<le> round_half_even (a / ulp_of a)" by (rule round_half_even_ge)
  then show ?thesis using ulp_pos [of a] by (simp add: round_abs_def)
qed

lemma round_abs_grid: "\<exists>k::int. round_abs a = of_int k * tiny"
proof -
  obtain k :: int where k: "ulp_of a = of_int k * tiny" using ulp_grid by blast
  have "round_abs a = of_int (round_half_even (a / ulp_of a) * k) * tiny"
    unfolding round_abs_def by (subst (2) k) simp
  then show ?thesis by blast
qed

lemma grid_ge_tiny:
  assumes "q = of_int k * tiny" "0 < q"
  shows "tiny \<le> q"
proof -
  have "0 < k" using assms tiny_pos by (simp add: zero_less_mult_iff)
  then have "(1::rat) \<le> of_int k" by simp
  then have "1 * tiny \<le> of_int k * tiny" using tiny_pos by (intro mult_right_mono) simp_all
  then show ?thesis using assms(1) by simp
qed

lemma ulp_le:
  assumes "a = of_int k * tiny" "0 < a"
  shows "ulp_of a \<le> a"
proof (cases "- 1022 \<le> ilog2 a")
  case True
  then have "ulp_of a = 2 powi (ilog2 a - 52)" by (simp add: ulp_of_def)
  also have "\<dots> \<le> 2 powi (ilog2 a)" by (intro power_int_increasing) simp_all
  also have "\<dots> \<le> a" using assms(2) by (rule ilog2_lower)
  finally show ?thesis .
next
  case False
  then have "max (ilog2 a) (- 1022) - 52 = - 1074" by simp
  then have "ulp_of a = tiny" by (simp only: ulp_of_def tiny_def)
  then show ?thesis using grid_ge_tiny [OF assms] by simp
qed

lemma round_abs_pos:
  assumes "a = of_int k * tiny" "0 < a"
  shows "0 < round_abs a"
proof -
  have "of_int 1 \<le> a / ulp_of a"
    using ulp_le [OF assms] ulp_pos [of a] by (simp add: pos_le_divide_eq)
  then have "1 \<le> round_half_even (a / ulp_of a)" by (rule round_half_even_ge)
  then show ?thesis using ulp_pos [of a] by (simp add: round_abs_def)
qed

lemma inf_bound_pos: "0 < inf_bound"
  by (simp add: inf_bound_def)

lemma on_grid_to_double: "on_grid (to_double q)"
proof -
  obtain k :: int where k: "round_abs \<bar>q\<bar> = of_int k * tiny" using round_abs_grid by blast
  then have "- round_abs \<bar>q\<bar> = of_int (- k) * tiny" by simp
  then have "\<exists>j::int. - round_abs \<bar>q\<bar> = of_int j * tiny" by blast
  moreover have "\<exists>j::int. (0::rat) = of_int j * tiny" by (rule exI [of _ 0]) simp
  ultimately show ?thesis using k by (auto simp: to_double_def Let_def on_grid.simps)
qed

lemma to_double_not_NaN [simp]: "to_double q \<noteq> NaN"
  by (simp add: to_double_def Let_def)

lemma positive_to_double:
  assumes "q = of_int k * tiny"
  shows "positive (to_double q) \<longleftrightarrow> 0 < q"
proof (cases "0 < q")
  case True
  then have "0 < round_abs \<bar>q\<bar>" using assms by (intro round_abs_pos [of _ k]) simp_all
  then show ?thesis using True by (simp add: to_double_def Let_def)
next
  case False
  have "0 \<le> round_abs \<bar>q\<bar>" by (rule round_abs_nonneg) simp
  then show ?thesis using False by (auto simp: to_double_def Let_def)
qed

lemma negative_to_double:
  assumes "q = of_int k * tiny"
  shows "negative (to_double q) \<longleftrightarrow> q < 0"
proof (cases "q < 0")
  case True
  have "\<bar>q\<bar> = of_int (- k) * tiny" using assms True by simp
  then have "0 < round_abs \<bar>q\<bar>" using True by (intro round_abs_pos [of _ "- k"]) simp_all
  then show ?thesis using True by (simp add: to_double_def Let_def)
next
  case False
  have "0 \<le> round_abs \<bar>q\<bar>" by (rule round_abs_nonneg) simp
  then show ?thesis using False by (auto simp: to_double_def Let_def)
qed

lemma round_abs_small:
  assumes "a = of_int k" "0 < a" "a < 9007199254740992"
  shows "round_abs a = a"
proof -
  have a53: "a < 2 powi 53" using assms(3) by simp
  have "2 powi (ilog2 a) \<le> a" using assms(2) by (rule ilog2_lower)
  then have lt: "(2::rat) powi (ilog2 a) < 2 powi 53" using a53 by linarith
  have "ilog2 a < 53"
  proof (rule ccontr)
    assume "\<not> ilog2 a < 53"
    then have "(2::rat) powi 53 \<le> 2 powi (ilog2 a)" by (intro power_int_increasing) simp_all
    then show False using lt by simp
  qed
  then have e52: "max (ilog2 a) (- 1022) \<le> 52" by simp
  define e where "e = max (ilog2 a) (- 1022)"
  have u: "ulp_of a = 2 powi (e - 52)" by (simp add: ulp_of_def e_def)
  have "1 / ulp_of a = 2 powi (52 - e)" unfolding u by (simp add: power_int_diff)
  also have "\<dots> = of_int (2 ^ nat (52 - e))" using e52 by (simp add: power_int_def e_def)
  finally have inv: "1 / ulp_of a = of_int (2 ^ nat (52 - e))" .
  have "a / ulp_of a = a * (1 / ulp_of a)" by simp
  also have "\<dots> = a * of_int (2 ^ nat (52 - e))" by (simp only: inv)
  also have "\<dots> = of_int k * of_int (2 ^ nat (52 - e))" by (simp only: assms(1) [symmetric])
  also have "\<dots> = of_int (k * 2 ^ nat (52 - e))" by simp
  finally have au: "a / ulp_of a = of_int (k * 2 ^ nat (52 - e))" .
  have "round_abs a = a / ulp_of a * ulp_of a"
    unfolding round_abs_def by (subst au, subst round_half_even_int, subst au [symmetric]) simp
  then show ?thesis using ulp_pos [of a] by simp
qed

lemma small_lt_inf_bound: "a < 9007199254740992 \<Longrightarrow> a < inf_bound"
proof -
  assume "a < 9007199254740992"
  then have "a < 2 powi 53" by simp
  also have "(2::rat) powi 53 \<le> 2 powi 1024" by (intro power_int_increasing) simp_all
  finally show ?thesis by (simp only: inf_bound_def)
qed

lemma to_double_0 [simp]: "to_double 0 = Fin 0"
  by (simp add: to_double_def)

lemma to_double_small:
  assumes "q \<in> \<int>" "\<bar>q\<bar> < 9007199254740992"
  shows "to_double q = Fin q"
proof (cases "q = 0")
  case True
  then show ?thesis by (simp add: to_double_def)
next
  case False
  obtain k :: int where k: "\<bar>q\<bar> = of_int k" using assms(1) by (metis Ints_abs Ints_cases)
  have r: "round_abs \<bar>q\<bar> = \<bar>q\<bar>" using k False assms(2) by (intro round_abs_small [of _ k]) simp_all
  have "\<not> inf_bound \<le> \<bar>q\<bar>" using small_lt_inf_bound [OF assms(2)] by simp
  then show ?thesis using False by (auto simp: to_double_def Let_def r)
qed

section \<open>Evaluating the model on concrete inputs\<close>

lemma digit_chars:
  "char_of (48::nat) = CHR ''0''" "char_of (49::nat) = CHR ''1''" "char_of (50::nat) = CHR ''2''"
  "char_of (51::nat) = CHR ''3''" "char_of (52::nat) = CHR ''4''" "char_of (53::nat) = CHR ''5''"
  "char_of (54::nat) = CHR ''6''" "char_of (55::nat) = CHR ''7''" "char_of (56::nat) = CHR ''8''"
  "char_of (57::nat) = CHR ''9''"
  by (simp_all add: char_of_eq_iff)

lemmas str_defs = str_or_empty_def opt_v_def strip_sign_def is_ws_def is_digit_def
  digits_val_def digit_val_def signed_def trim_def toLowerCase_def lower_char_def

lemmas num_defs = string_to_number_def str_decimal_def exponent_part_def radix_literal_def
  hex_val_def scale10_def parseInt_def to_double_small js_or_def strict_ne_def
  toBuild_def toDate_def

lemmas ver_defs = parse_def nth_or0_def cmpSemver_def looksLikeSemver_def digits1_def
  dot_digits_def pre_suffix_def is_pre_char_def

lemmas date_defs = date_only_def days_from_civil_def days_in_month_def

lemmas state_defs = load_def setSort_def applyFilter_def in_sorters_def get_prop_def
  proto_prop_def sorters_def init_state_def

lemmas filter_defs = matches_def hay_def spec_matches_def spec_hay_def or_empty_def
  show_number_def show_int_def show_nat.simps digit_chars to_double_small

section \<open>Signs of numbers\<close>

lemma truthy_num_iff: "truthy_num x \<longleftrightarrow> positive x \<or> negative x"
  by (cases x) auto

lemma not_both: "positive x \<Longrightarrow> \<not> negative x"
  by (cases x) auto

lemma positive_js_or: "positive (js_or x y) \<longleftrightarrow> positive x \<or> (\<not> negative x \<and> positive y)"
  by (cases x) (auto simp: js_or_def)

lemma negative_js_or: "negative (js_or x y) \<longleftrightarrow> negative x \<or> (\<not> positive x \<and> negative y)"
  by (cases x) (auto simp: js_or_def)

lemma on_grid_int [simp]: "on_grid (Fin (of_int i))"
proof -
  have "(1::rat) = of_int (2 ^ nat (0 + 1074)) * tiny"
    using powi_tiny [of 0] by simp
  then have "(of_int i :: rat) = of_int (i * 2 ^ nat (0 + 1074)) * tiny"
    by (simp add: mult.assoc)
  then show ?thesis unfolding on_grid.simps by (rule exI)
qed

declare on_grid_to_double [simp]

lemma on_grid_consts [simp]: "on_grid (Fin 0)" "on_grid (Fin 1)" "on_grid (Fin (- 1))"
  using on_grid_int [of 0] on_grid_int [of 1] on_grid_int [of "- 1"] by simp_all

lemma on_grid_js_or [simp]: "on_grid x \<Longrightarrow> on_grid y \<Longrightarrow> on_grid (js_or x y)"
  by (simp add: js_or_def)

lemma on_grid_js_sub [simp]: "on_grid (js_sub x y)"
  by (cases x; cases y) (simp_all add: on_grid_to_double)

lemma grid_diff:
  assumes "on_grid (Fin a)" "on_grid (Fin b)"
  shows "\<exists>k::int. a - b = of_int k * tiny"
proof -
  obtain i j :: int where "a = of_int i * tiny" "b = of_int j * tiny"
    using assms by (auto simp: on_grid.simps)
  then have "a - b = of_int (i - j) * tiny" by (simp add: left_diff_distrib)
  then show ?thesis by blast
qed

lemma positive_js_sub:
  assumes "on_grid x" "on_grid y" "x \<noteq> NaN" "y \<noteq> NaN"
  shows "positive (js_sub x y) \<longleftrightarrow> ekey y < ekey x"
proof (cases x)
  case x: (Fin a)
  show ?thesis
  proof (cases y)
    case y: (Fin b)
    obtain k :: int where "a - b = of_int k * tiny"
      using grid_diff assms(1,2) x y by blast
    then have "positive (to_double (a - b)) \<longleftrightarrow> 0 < a - b" by (rule positive_to_double)
    then show ?thesis using x y by simp
  qed (use x assms in auto)
qed (use assms in \<open>cases y; auto\<close>, use assms in \<open>cases y; auto\<close>, use assms in auto)

lemma negative_js_sub:
  assumes "on_grid x" "on_grid y" "x \<noteq> NaN" "y \<noteq> NaN"
  shows "negative (js_sub x y) \<longleftrightarrow> ekey x < ekey y"
proof (cases x)
  case x: (Fin a)
  show ?thesis
  proof (cases y)
    case y: (Fin b)
    obtain k :: int where "a - b = of_int k * tiny"
      using grid_diff assms(1,2) x y by blast
    then have "negative (to_double (a - b)) \<longleftrightarrow> a - b < 0" by (rule negative_to_double)
    then show ?thesis using x y by simp
  qed (use x assms in auto)
qed (use assms in \<open>cases y; auto\<close>, use assms in \<open>cases y; auto\<close>, use assms in auto)

lemma grid_neg:
  assumes "on_grid (Fin a)"
  shows "\<exists>k::int. - a = of_int k * tiny"
proof -
  obtain i :: int where "a = of_int i * tiny" using assms by (auto simp: on_grid.simps)
  then have "- a = of_int (- i) * tiny" by simp
  then show ?thesis by blast
qed

lemma positive_neg1: "on_grid x \<Longrightarrow> positive (js_mul x (Fin (- 1))) \<longleftrightarrow> negative x"
proof (cases x)
  case (Fin a)
  assume "on_grid x"
  then obtain k :: int where "- a = of_int k * tiny" using grid_neg Fin by blast
  then have "positive (to_double (- a)) \<longleftrightarrow> 0 < - a" by (rule positive_to_double)
  then show ?thesis using Fin by simp
qed auto

lemma negative_neg1: "on_grid x \<Longrightarrow> negative (js_mul x (Fin (- 1))) \<longleftrightarrow> positive x"
proof (cases x)
  case (Fin a)
  assume "on_grid x"
  then obtain k :: int where "- a = of_int k * tiny" using grid_neg Fin by blast
  then have "negative (to_double (- a)) \<longleftrightarrow> - a < 0" by (rule negative_to_double)
  then show ?thesis using Fin by simp
qed auto

lemma ekey_inj: "x \<noteq> NaN \<Longrightarrow> y \<noteq> NaN \<Longrightarrow> ekey x = ekey y \<longleftrightarrow> x = y"
  by (cases x; cases y) auto

lemma toBuild_not_NaN [simp]: "toBuild b \<noteq> NaN"
  by (cases "to_number b") (auto simp: toBuild_def)

lemma toDate_not_NaN [simp]: "toDate dp d \<noteq> NaN"
  by (cases "getTime dp d") (auto simp: toDate_def)

lemma on_grid_radix_literal [simp]: "on_grid (radix_literal r ds)"
  by (simp add: radix_literal_def on_grid_to_double)

lemma on_grid_str_decimal [simp]: "on_grid (str_decimal t)"
  by (simp add: str_decimal_def Let_def on_grid_to_double split: prod.split option.split)

lemma on_grid_string_to_number [simp]: "on_grid (string_to_number s)"
  by (simp add: string_to_number_def split: list.split)

lemma on_grid_to_number [simp]: "on_grid (to_number b)"
  by (cases b) (simp_all add: on_grid_to_double)

lemma on_grid_toBuild [simp]: "on_grid (toBuild b)"
  by (simp add: toBuild_def Let_def)

lemma on_grid_toDate [simp]: "on_grid (toDate dp d)"
  by (cases d) (simp_all add: toDate_def Let_def split: option.split)

lemma on_grid_parseInt [simp]: "on_grid (parseInt s)"
  by (simp add: parseInt_def Let_def on_grid_to_double split: prod.split)

section \<open>The default-sort heuristic\<close>

text \<open>
  C10. On an empty dataset \<open>pickDefaultSort\<close> returns \<open>semver-desc\<close>: no record has a
  numeric build (\<open>some\<close> is false on no records) and every version looks like a semver
  (\<open>every\<close> is true on no records), so neither \<open>build-desc\<close> nor \<open>date-desc\<close> is chosen.
\<close>

theorem pickDefaultSort_empty:
  "\<not> list_ex (\<lambda>r. isFinite (to_number (build r))) []
   \<and> list_all (\<lambda>r. looksLikeSemver (version r)) []
   \<and> pickDefaultSort [] = ''semver-desc''"
  by (simp add: pickDefaultSort_def)

text \<open>
  \<open>some\<close> and \<open>every\<close> are the quantifiers over the records; the build test is
  \<open>Number.isFinite(Number(r.build))\<close>.
\<close>

lemma pickDefaultSort_cases:
  "pickDefaultSort arr =
     (if \<exists>r \<in> set arr. isFinite (to_number (build r)) then ''build-desc''
      else if \<forall>r \<in> set arr. looksLikeSemver (version r) then ''semver-desc''
      else ''date-desc'')"
  by (simp add: pickDefaultSort_def list_ex_iff list_all_iff)

text \<open>
  That test also passes for a build that is \<open>null\<close> or the empty string, since \<open>Number\<close>
  turns both into 0. With a build that is there the heuristic is the specification's.
\<close>

lemma numeric_build_present: "present b \<Longrightarrow> numeric_build b = isFinite (to_number b)"
  by (simp add: numeric_build_def)

lemma pickDefaultSort_spec:
  "\<forall>r \<in> set arr. build r \<noteq> Null \<and> build r \<noteq> Str [] \<Longrightarrow>
   pickDefaultSort arr = spec_pickDefaultSort arr"
proof -
  assume a: "\<forall>r \<in> set arr. build r \<noteq> Null \<and> build r \<noteq> Str []"
  have "isFinite (to_number (build r)) = numeric_build (build r)" if "r \<in> set arr" for r
    using a that by (cases "build r") (auto simp: numeric_build_def)
  then have "list_ex (\<lambda>r. isFinite (to_number (build r))) arr
               = list_ex (\<lambda>r. numeric_build (build r)) arr"
    by (simp add: list_ex_iff)
  then show ?thesis by (simp add: pickDefaultSort_def spec_pickDefaultSort_def)
qed

text \<open>
  C8. One release, version \<open>nightly\<close>, build \<open>null\<close>: no build is numerically parseable and
  the version is no semver, so the heuristic as specified selects \<open>date-desc\<close>;
  \<open>Number(null)\<close> is 0, and \<open>pickDefaultSort\<close> returns \<open>build-desc\<close>. The same with the
  empty string for a build.
\<close>

theorem pickDefaultSort_counts_null_build:
  "\<not> numeric_build Null
   \<and> \<not> looksLikeSemver (Str ''nightly'')
   \<and> spec_pickDefaultSort [rel (Str ''nightly'') Undefined Null] = ''date-desc''
   \<and> pickDefaultSort [rel (Str ''nightly'') Undefined Null] = ''build-desc''
   \<and> \<not> numeric_build (Str [])
   \<and> spec_pickDefaultSort [rel (Str ''nightly'') Undefined (Str [])] = ''date-desc''
   \<and> pickDefaultSort [rel (Str ''nightly'') Undefined (Str [])] = ''build-desc''"
  by (simp add: pickDefaultSort_def spec_pickDefaultSort_def numeric_build_def rel_def
        str_defs num_defs ver_defs)

lemma pickDefaultSort_range:
  "pickDefaultSort arr \<in> {''build-desc'', ''semver-desc'', ''date-desc''}"
  by (simp add: pickDefaultSort_def)

lemma load_default: "sort_name (snd (load dp (Some arr) None st)) = ''build-asc''"
  by (simp add: load_def Let_def in_sorters_def get_prop_def sorters_def split: sum.split)

lemma load_never_heuristic:
  "sort_name (snd (load dp (Some arr) None st)) \<noteq> pickDefaultSort arr"
  using pickDefaultSort_range [of arr] by (auto simp: load_default)

text \<open>
  C1. Loading a dataset with no \<open>sort\<close> parameter in the URL: for one release with build 7
  the heuristic chooses \<open>build-desc\<close>, and \<open>load\<close> sets the sort key to the constant
  \<open>build-asc\<close>; \<open>pickDefaultSort\<close> is never called.
\<close>

theorem load_skips_pickDefaultSort:
  "sort_name (snd (load date_only (Some [rel (Str ''1.0.0'') Undefined (Num 7)]) None init_state))
     = ''build-asc''
   \<and> pickDefaultSort [rel (Str ''1.0.0'') Undefined (Num 7)] = ''build-desc''"
  by (simp add: load_default pickDefaultSort_def rel_def to_double_small)

section \<open>The semver parser and comparator\<close>

lemma nth_or0_not_NaN [simp]: "nth_or0 nums i \<noteq> NaN"
  by (cases "nums ! i") (auto simp: nth_or0_def js_or_def)

lemma on_grid_nth_or0: "\<forall>x \<in> set nums. on_grid x \<Longrightarrow> on_grid (nth_or0 nums i)"
  by (simp add: nth_or0_def)

lemma parse_shape:
  "\<exists>x y z. ver_n (parse v) = [x, y, z] \<and> x \<noteq> NaN \<and> y \<noteq> NaN \<and> z \<noteq> NaN
     \<and> on_grid x \<and> on_grid y \<and> on_grid z"
  by (simp add: parse_def Let_def on_grid_nth_or0)

lemma str_less_codes: "str_less s t \<longleftrightarrow> codes s < codes t"
  by (induction s t rule: str_less.induct) (auto simp: codes_def)

lemma codes_inj: "codes s = codes t \<longleftrightarrow> s = t"
  unfolding codes_def by (simp add: inj_map_eq_map inj_on_def)

lemma codes_Nil [simp]: "codes s = [] \<longleftrightarrow> s = []"
  by (simp add: codes_def)

lemma first_diff_3:
  assumes "ver_n A = [x0, x1, x2]" "ver_n B = [y0, y1, y2]"
    and "x0 \<noteq> NaN" "x1 \<noteq> NaN" "x2 \<noteq> NaN" "y0 \<noteq> NaN" "y1 \<noteq> NaN" "y2 \<noteq> NaN"
  shows "first_diff [0, 1, 2] A B =
           (if x0 \<noteq> y0 then Some (js_sub x0 y0)
            else if x1 \<noteq> y1 then Some (js_sub x1 y1)
            else if x2 \<noteq> y2 then Some (js_sub x2 y2) else None)"
  using assms by (simp add: strict_ne_def)

lemma less_pre_key:
  "((p = [], codes p) < (q = [], codes q)) \<longleftrightarrow>
     (p \<noteq> [] \<and> q = []) \<or> (p \<noteq> [] \<and> q \<noteq> [] \<and> codes p < codes q)"
  by (cases "p = []"; cases "q = []") (auto simp: less_prod_def')

lemma cmpSemver_positive: "positive (cmpSemver a b) \<longleftrightarrow> vkey b < vkey a"
proof -
  obtain x0 x1 x2 where A: "ver_n (parse a) = [x0, x1, x2]"
    "x0 \<noteq> NaN" "x1 \<noteq> NaN" "x2 \<noteq> NaN" "on_grid x0" "on_grid x1" "on_grid x2"
    using parse_shape [of a] by blast
  obtain y0 y1 y2 where B: "ver_n (parse b) = [y0, y1, y2]"
    "y0 \<noteq> NaN" "y1 \<noteq> NaN" "y2 \<noteq> NaN" "on_grid y0" "on_grid y1" "on_grid y2"
    using parse_shape [of b] by blast
  have pre: "((ver_pre (parse b) = [], codes (ver_pre (parse b)))
               < (ver_pre (parse a) = [], codes (ver_pre (parse a)))) \<longleftrightarrow>
             (ver_pre (parse b) \<noteq> [] \<and> ver_pre (parse a) = []) \<or>
             (ver_pre (parse b) \<noteq> [] \<and> ver_pre (parse a) \<noteq> []
                \<and> codes (ver_pre (parse b)) < codes (ver_pre (parse a)))"
    by (rule less_pre_key)
  show ?thesis
    unfolding cmpSemver_def Let_def vkey_def first_diff_3 [OF A(1) B(1) A(2-4) B(2-4)]
    using A B
    by (auto simp: positive_js_sub ekey_inj str_less_codes less_prod_def' pre
             simp del: ekey.simps)
qed

lemma cmpSemver_negative: "negative (cmpSemver a b) \<longleftrightarrow> vkey a < vkey b"
proof -
  obtain x0 x1 x2 where A: "ver_n (parse a) = [x0, x1, x2]"
    "x0 \<noteq> NaN" "x1 \<noteq> NaN" "x2 \<noteq> NaN" "on_grid x0" "on_grid x1" "on_grid x2"
    using parse_shape [of a] by blast
  obtain y0 y1 y2 where B: "ver_n (parse b) = [y0, y1, y2]"
    "y0 \<noteq> NaN" "y1 \<noteq> NaN" "y2 \<noteq> NaN" "on_grid y0" "on_grid y1" "on_grid y2"
    using parse_shape [of b] by blast
  have pre: "((ver_pre (parse a) = [], codes (ver_pre (parse a)))
               < (ver_pre (parse b) = [], codes (ver_pre (parse b)))) \<longleftrightarrow>
             (ver_pre (parse a) \<noteq> [] \<and> ver_pre (parse b) = []) \<or>
             (ver_pre (parse a) \<noteq> [] \<and> ver_pre (parse b) \<noteq> []
                \<and> codes (ver_pre (parse a)) < codes (ver_pre (parse b)))"
    by (rule less_pre_key)
  show ?thesis
    unfolding cmpSemver_def Let_def vkey_def first_diff_3 [OF A(1) B(1) A(2-4) B(2-4)]
    using A B
    by (auto simp: negative_js_sub ekey_inj str_less_codes less_prod_def' pre
             simp del: ekey.simps)
qed

lemma on_grid_cmpSemver [simp]: "on_grid (cmpSemver a b)"
proof -
  obtain x0 x1 x2 where A: "ver_n (parse a) = [x0, x1, x2]"
    "x0 \<noteq> NaN" "x1 \<noteq> NaN" "x2 \<noteq> NaN"
    using parse_shape [of a] by blast
  obtain y0 y1 y2 where B: "ver_n (parse b) = [y0, y1, y2]"
    "y0 \<noteq> NaN" "y1 \<noteq> NaN" "y2 \<noteq> NaN"
    using parse_shape [of b] by blast
  show ?thesis
    unfolding cmpSemver_def Let_def first_diff_3 [OF A(1) B(1) A(2-4) B(2-4)] by simp
qed

text \<open>
  C4. \<open>parse\<close> splits a version at every dash and keeps the first two pieces: for
  \<open>1.2.3-beta-1\<close> the pre-release is \<open>beta\<close>, not \<open>beta-1\<close>, so two versions that
  differ after the second dash compare as equal.
\<close>

theorem parse_splits_every_dash:
  "parse (Str ''1.2.3-beta-1'') = \<lparr>ver_n = [Fin 1, Fin 2, Fin 3], ver_pre = ''beta''\<rparr>
   \<and> cmpSemver (Str ''1.2.3-beta-1'') (Str ''1.2.3-beta-2'') = Fin 0"
  by (simp add: str_defs num_defs ver_defs)

text \<open>
  On the fields that \<open>parse\<close> returns the comparison is the specified one: with equal
  numbers, a version with a pre-release is smaller than one without, and two pre-releases
  compare as strings, code unit by code unit.
\<close>

lemma cmpSemver_prerelease:
  assumes "ver_n (parse a) = ver_n (parse b)"
  shows "(ver_pre (parse a) \<noteq> [] \<and> ver_pre (parse b) = []
            \<longrightarrow> cmpSemver a b = Fin (- 1) \<and> cmpSemver b a = Fin 1)
       \<and> (ver_pre (parse a) \<noteq> [] \<and> ver_pre (parse b) \<noteq> []
            \<longrightarrow> cmpSemver a b =
                 (if codes (ver_pre (parse a)) < codes (ver_pre (parse b)) then Fin (- 1)
                  else if codes (ver_pre (parse b)) < codes (ver_pre (parse a)) then Fin 1
                  else Fin 0))"
proof -
  obtain x0 x1 x2 where A: "ver_n (parse a) = [x0, x1, x2]"
    "x0 \<noteq> NaN" "x1 \<noteq> NaN" "x2 \<noteq> NaN" "on_grid x0" "on_grid x1" "on_grid x2"
    using parse_shape [of a] by blast
  have B: "ver_n (parse b) = [x0, x1, x2]" using assms A(1) by simp
  have ab: "first_diff [0, 1, 2] (parse a) (parse b) = None"
    using first_diff_3 [OF A(1) B A(2-4) A(2-4)] by simp
  have ba: "first_diff [0, 1, 2] (parse b) (parse a) = None"
    using first_diff_3 [OF B A(1) A(2-4) A(2-4)] by simp
  show ?thesis
    unfolding cmpSemver_def Let_def ab ba by (simp add: str_less_codes)
qed

text \<open>
  C5. \<open>1.2.3-beta-1\<close> and \<open>1.2.3-beta-2\<close> have equal numbers and the pre-releases
  \<open>beta-1\<close> and \<open>beta-2\<close>, the first the smaller string: the comparison should be
  negative, and \<open>cmpSemver\<close> returns 0, since \<open>parse\<close> keeps \<open>beta\<close> of both. \<open>1.2.3--x\<close>
  has the pre-release \<open>-x\<close> and should be smaller than \<open>1.2.3\<close>; \<open>parse\<close> keeps the empty
  piece between the two dashes and \<open>cmpSemver\<close> returns 0.
\<close>

theorem cmpSemver_ignores_rest_of_tag:
  "ver_n (parse (Str ''1.2.3-beta-1'')) = ver_n (parse (Str ''1.2.3-beta-2''))
   \<and> spec_pre (Str ''1.2.3-beta-1'') = ''beta-1''
   \<and> spec_pre (Str ''1.2.3-beta-2'') = ''beta-2''
   \<and> codes ''beta-1'' < codes ''beta-2''
   \<and> cmpSemver (Str ''1.2.3-beta-1'') (Str ''1.2.3-beta-2'') = Fin 0
   \<and> ver_n (parse (Str ''1.2.3--x'')) = ver_n (parse (Str ''1.2.3''))
   \<and> spec_pre (Str ''1.2.3--x'') = ''-x''
   \<and> spec_pre (Str ''1.2.3'') = []
   \<and> cmpSemver (Str ''1.2.3--x'') (Str ''1.2.3'') = Fin 0"
  by (simp add: spec_pre_def codes_def str_defs num_defs ver_defs)

section \<open>The sorters\<close>

text \<open>
  C3. A sorter can return NaN: \<open>semver-asc\<close> and \<open>semver-desc\<close> on a record without a
  date compared with itself, \<open>date-asc\<close> and \<open>date-desc\<close> on two records of one date
  without builds. The last tie-break subtracts negative infinity from itself.
\<close>

theorem sorter_returns_NaN:
  "sorter date_only SemverAsc (rel (Str ''1.0.0'') Undefined Undefined)
                              (rel (Str ''1.0.0'') Undefined Undefined) = NaN
   \<and> sorter date_only SemverDesc (rel (Str ''1.0.0'') Undefined Undefined)
                                 (rel (Str ''1.0.0'') Undefined Undefined) = NaN
   \<and> sorter date_only DateAsc (rel (Str ''1.0.0'') (Str ''2024-01-15'') Undefined)
                              (rel (Str ''1.0.1'') (Str ''2024-01-15'') Undefined) = NaN
   \<and> sorter date_only DateDesc (rel (Str ''1.0.0'') (Str ''2024-01-15'') Undefined)
                               (rel (Str ''1.0.1'') (Str ''2024-01-15'') Undefined) = NaN"
  by (simp add: rel_def str_defs num_defs ver_defs date_defs)

text \<open>
  Read as the sort reads them, NaN as zero, the sorters are consistent: each compares a
  key of the record in a linear order, so swapping the arguments swaps the sign, and
  \<open>does not have to follow\<close> is total and transitive.
\<close>

lemma pos3:
  fixes a a' :: "'a::linorder" and b b' :: "'b::linorder" and c c' :: "'c::linorder"
    and z :: "'d::linorder"
  assumes "positive u \<longleftrightarrow> a' < a" "negative u \<longleftrightarrow> a < a'"
    and "positive v \<longleftrightarrow> b' < b" "negative v \<longleftrightarrow> b < b'"
    and "positive w \<longleftrightarrow> c' < c"
  shows "positive (js_or (js_or u v) w) \<longleftrightarrow> (a', b', c', z) < (a, b, c, z)"
  using assms by (auto simp: positive_js_or negative_js_or less_prod_def')

lemma neg3:
  fixes a a' :: "'a::linorder" and b b' :: "'b::linorder" and c c' :: "'c::linorder"
    and z :: "'d::linorder"
  assumes "positive u \<longleftrightarrow> a' < a" "negative u \<longleftrightarrow> a < a'"
    and "positive v \<longleftrightarrow> b' < b" "negative v \<longleftrightarrow> b < b'"
    and "negative w \<longleftrightarrow> c < c'"
  shows "negative (js_or (js_or u v) w) \<longleftrightarrow> (a, b, c, z) < (a', b', c', z)"
  using assms by (auto simp: positive_js_or negative_js_or less_prod_def')

lemma pos2_last:
  fixes a a' :: "'a::linorder" and b b' :: "'b::linorder"
    and y :: "'c::linorder" and z :: "'d::linorder"
  assumes "positive u \<longleftrightarrow> a' < a" "negative u \<longleftrightarrow> a < a'" and "positive v \<longleftrightarrow> b' < b"
  shows "positive (js_or u v) \<longleftrightarrow> (y, z, a', b') < (y, z, a, b)"
  using assms by (auto simp: positive_js_or less_prod_def')

lemma neg2_last:
  fixes a a' :: "'a::linorder" and b b' :: "'b::linorder"
    and y :: "'c::linorder" and z :: "'d::linorder"
  assumes "positive u \<longleftrightarrow> a' < a" "negative u \<longleftrightarrow> a < a'" and "negative v \<longleftrightarrow> b < b'"
  shows "negative (js_or u v) \<longleftrightarrow> (y, z, a, b) < (y, z, a', b')"
  using assms by (auto simp: negative_js_or less_prod_def')

lemma pos2_first:
  fixes a a' :: "'a::linorder" and b b' :: "'b::linorder"
    and y :: "'c::linorder" and z :: "'d::linorder"
  assumes "positive u \<longleftrightarrow> a' < a" "negative u \<longleftrightarrow> a < a'" and "positive v \<longleftrightarrow> b' < b"
  shows "positive (js_or u v) \<longleftrightarrow> (a', b', y, z) < (a, b, y, z)"
  using assms by (auto simp: positive_js_or less_prod_def')

lemma neg2_first:
  fixes a a' :: "'a::linorder" and b b' :: "'b::linorder"
    and y :: "'c::linorder" and z :: "'d::linorder"
  assumes "positive u \<longleftrightarrow> a' < a" "negative u \<longleftrightarrow> a < a'" and "negative v \<longleftrightarrow> b < b'"
  shows "negative (js_or u v) \<longleftrightarrow> (a, b, y, z) < (a', b', y, z)"
  using assms by (auto simp: negative_js_or less_prod_def')

lemmas sub_signs = positive_js_sub negative_js_sub positive_neg1 negative_neg1
  cmpSemver_positive cmpSemver_negative bkey_def dkey_def

lemma sorter_positive:
  "positive (sorter dp k a b) \<longleftrightarrow>
     (if descending k then skey dp k a < skey dp k b else skey dp k b < skey dp k a)"
proof (cases k)
  case BuildDesc
  show ?thesis unfolding BuildDesc sorter.simps skey.simps descending.simps if_True
    by (rule pos3) (simp_all add: sub_signs)
next
  case BuildAsc
  show ?thesis unfolding BuildAsc sorter.simps skey.simps descending.simps if_False
    by (rule pos3) (simp_all add: sub_signs)
next
  case SemverDesc
  show ?thesis unfolding SemverDesc sorter.simps skey.simps descending.simps if_True
    by (rule pos2_last) (simp_all add: sub_signs)
next
  case SemverAsc
  show ?thesis unfolding SemverAsc sorter.simps skey.simps descending.simps if_False
    by (rule pos2_last) (simp_all add: sub_signs)
next
  case DateDesc
  show ?thesis unfolding DateDesc sorter.simps skey.simps descending.simps if_True
    by (rule pos2_first) (simp_all add: sub_signs)
next
  case DateAsc
  show ?thesis unfolding DateAsc sorter.simps skey.simps descending.simps if_False
    by (rule pos2_first) (simp_all add: sub_signs)
qed

lemma sorter_negative:
  "negative (sorter dp k a b) \<longleftrightarrow>
     (if descending k then skey dp k b < skey dp k a else skey dp k a < skey dp k b)"
proof (cases k)
  case BuildDesc
  show ?thesis unfolding BuildDesc sorter.simps skey.simps descending.simps if_True
    by (rule neg3) (simp_all add: sub_signs)
next
  case BuildAsc
  show ?thesis unfolding BuildAsc sorter.simps skey.simps descending.simps if_False
    by (rule neg3) (simp_all add: sub_signs)
next
  case SemverDesc
  show ?thesis unfolding SemverDesc sorter.simps skey.simps descending.simps if_True
    by (rule neg2_last) (simp_all add: sub_signs)
next
  case SemverAsc
  show ?thesis unfolding SemverAsc sorter.simps skey.simps descending.simps if_False
    by (rule neg2_last) (simp_all add: sub_signs)
next
  case DateDesc
  show ?thesis unfolding DateDesc sorter.simps skey.simps descending.simps if_True
    by (rule neg2_first) (simp_all add: sub_signs)
next
  case DateAsc
  show ?thesis unfolding DateAsc sorter.simps skey.simps descending.simps if_False
    by (rule neg2_first) (simp_all add: sub_signs)
qed

lemma sorter_antisym: "positive (sorter dp k a b) \<longleftrightarrow> negative (sorter dp k b a)"
  by (simp add: sorter_positive sorter_negative)

lemma sorter_total: "positive (sorter dp k x y) \<Longrightarrow> \<not> positive (sorter dp k y x)"
  unfolding sorter_positive by (cases "descending k") simp_all

lemma sorter_trans:
  "\<not> positive (sorter dp k x y) \<Longrightarrow> \<not> positive (sorter dp k y z) \<Longrightarrow> \<not> positive (sorter dp k x z)"
  unfolding sorter_positive by (cases "descending k") (simp_all add: not_less)

text \<open>
  Where NaN comes from: never from \<open>build-asc\<close> and \<open>build-desc\<close>; from the other
  four exactly when the first key ties and the last key is missing on both sides.
\<close>

lemma cmpSemver_not_NaN: "cmpSemver a b \<noteq> NaN"
proof -
  obtain x0 x1 x2 where A: "ver_n (parse a) = [x0, x1, x2]"
    "x0 \<noteq> NaN" "x1 \<noteq> NaN" "x2 \<noteq> NaN" "on_grid x0" "on_grid x1" "on_grid x2"
    using parse_shape [of a] by blast
  obtain y0 y1 y2 where B: "ver_n (parse b) = [y0, y1, y2]"
    "y0 \<noteq> NaN" "y1 \<noteq> NaN" "y2 \<noteq> NaN" "on_grid y0" "on_grid y1" "on_grid y2"
    using parse_shape [of b] by blast
  have sub: "js_sub x y \<noteq> NaN" if "x \<noteq> NaN" "y \<noteq> NaN" "x \<noteq> y" for x y
    using that by (cases x; cases y) auto
  show ?thesis
    unfolding cmpSemver_def Let_def first_diff_3 [OF A(1) B(1) A(2-4) B(2-4)]
    using A B sub by auto
qed

lemma js_or_NaN: "js_or x y = NaN \<longleftrightarrow> \<not> truthy_num x \<and> y = NaN"
  by (cases x) (auto simp: js_or_def)

lemma js_sub_NaN:
  "x \<noteq> NaN \<Longrightarrow> y \<noteq> NaN \<Longrightarrow> js_sub x y = NaN \<longleftrightarrow> (x = PInf \<and> y = PInf) \<or> (x = NInf \<and> y = NInf)"
  by (cases x; cases y) auto

lemma toBuild_range: "toBuild b \<noteq> PInf"
  by (cases "to_number b") (auto simp: toBuild_def)

lemma toDate_range: "toDate dp d \<noteq> PInf"
  by (cases "getTime dp d") (auto simp: toDate_def)

lemma build_sorters_not_NaN:
  "sorter dp BuildAsc a b \<noteq> NaN" "sorter dp BuildDesc a b \<noteq> NaN"
  by (simp_all add: js_or_NaN cmpSemver_not_NaN)

lemma js_mul_neg1_truthy: "on_grid x \<Longrightarrow> truthy_num (js_mul x (Fin (- 1))) = truthy_num x"
  by (auto simp: truthy_num_iff positive_neg1 negative_neg1)

lemma semver_sorters_NaN:
  "sorter dp SemverAsc a b = NaN \<longleftrightarrow>
     \<not> truthy_num (cmpSemver (version a) (version b))
     \<and> toDate dp (date a) = NInf \<and> toDate dp (date b) = NInf"
  "sorter dp SemverDesc a b = NaN \<longleftrightarrow>
     \<not> truthy_num (cmpSemver (version a) (version b))
     \<and> toDate dp (date a) = NInf \<and> toDate dp (date b) = NInf"
  by (auto simp: js_or_NaN js_sub_NaN toDate_range js_mul_neg1_truthy cmpSemver_not_NaN)

lemma date_sorters_NaN:
  "sorter dp DateAsc a b = NaN \<longleftrightarrow>
     \<not> truthy_num (js_sub (toDate dp (date a)) (toDate dp (date b)))
     \<and> toBuild (build a) = NInf \<and> toBuild (build b) = NInf"
  "sorter dp DateDesc a b = NaN \<longleftrightarrow>
     \<not> truthy_num (js_sub (toDate dp (date b)) (toDate dp (date a)))
     \<and> toBuild (build a) = NInf \<and> toBuild (build b) = NInf"
  by (auto simp: js_or_NaN js_sub_NaN toBuild_range)

section \<open>Properties of the sort\<close>

lemma set_insert_by [simp]: "set (insert_by c x ys) = insert x (set ys)"
  by (induction ys) auto

lemma mset_insert_by [simp]: "mset (insert_by c x ys) = add_mset x (mset ys)"
  by (induction ys) auto

lemma mset_stable_sort [simp]: "mset (stable_sort c xs) = mset xs"
  by (induction xs) auto

lemma set_stable_sort [simp]: "set (stable_sort c xs) = set xs"
  by (induction xs) auto

lemma ordered_insert_by:
  assumes tot: "\<And>x y. positive (c x y) \<Longrightarrow> \<not> positive (c y x)"
    and trans: "\<And>x y z. \<not> positive (c x y) \<Longrightarrow> \<not> positive (c y z) \<Longrightarrow> \<not> positive (c x z)"
  shows "ordered_by c ys \<Longrightarrow> ordered_by c (insert_by c x ys)"
proof (induction ys)
  case Nil
  then show ?case by (simp add: ordered_by_def)
next
  case (Cons y ys)
  show ?case
  proof (cases "positive (c x y)")
    case True
    have "ordered_by c (insert_by c x ys)"
      using Cons by (simp add: ordered_by_def)
    moreover have "\<not> positive (c y x)" using True tot by blast
    ultimately show ?thesis using True Cons.prems by (auto simp: ordered_by_def)
  next
    case False
    then show ?thesis using Cons.prems trans by (auto simp: ordered_by_def)
  qed
qed

lemma ordered_stable_sort:
  assumes tot: "\<And>x y. positive (c x y) \<Longrightarrow> \<not> positive (c y x)"
    and trans: "\<And>x y z. \<not> positive (c x y) \<Longrightarrow> \<not> positive (c y z) \<Longrightarrow> \<not> positive (c x z)"
  shows "ordered_by c (stable_sort c xs)"
proof (induction xs)
  case Nil
  show ?case by (simp add: ordered_by_def)
next
  case (Cons x xs)
  then show ?case using ordered_insert_by [of c, OF tot trans] by simp
qed

lemma stable_sort_ordered: "ordered_by c xs \<Longrightarrow> stable_sort c xs = xs"
proof (induction xs)
  case Nil
  show ?case by simp
next
  case (Cons x xs)
  then have "stable_sort c xs = xs" by (simp add: ordered_by_def)
  then show ?case using Cons.prems by (cases xs) (auto simp: ordered_by_def)
qed

lemma ordered_unique:
  assumes "ordered_by c xs" "ordered_by c ys" "mset xs = mset ys"
    and "\<And>x y. x \<in> set xs \<Longrightarrow> y \<in> set xs \<Longrightarrow> ties c x y \<Longrightarrow> x = y"
  shows "xs = ys"
  using assms
proof (induction xs arbitrary: ys)
  case Nil
  then show ?case by simp
next
  case (Cons x xs)
  then obtain y ys' where ys: "ys = y # ys'" by (cases ys) auto
  have sets: "set (x # xs) = set ys" using Cons.prems(3) by (rule mset_eq_setD)
  have xy: "x = y"
  proof (rule ccontr)
    assume ne: "x \<noteq> y"
    then have "x \<in> set ys'" "y \<in> set xs" using sets ys by auto
    then have "\<not> positive (c y x)" "\<not> positive (c x y)"
      using Cons.prems(1,2) ys by (auto simp: ordered_by_def)
    then have "ties c x y" by (simp add: ties_def)
    moreover have "y \<in> set (x # xs)" using sets ys by simp
    ultimately have "x = y" using Cons.prems(4) by simp
    then show False using ne by simp
  qed
  have "xs = ys'"
  proof (rule Cons.IH)
    show "ordered_by c xs" using Cons.prems(1) by (simp add: ordered_by_def)
    show "ordered_by c ys'" using Cons.prems(2) ys by (simp add: ordered_by_def)
    show "mset xs = mset ys'" using Cons.prems(3) ys xy by simp
    show "\<And>a b. a \<in> set xs \<Longrightarrow> b \<in> set xs \<Longrightarrow> ties c a b \<Longrightarrow> a = b"
      using Cons.prems(4) by simp
  qed
  then show ?case using ys xy by simp
qed

lemma ordered_sorter: "ordered_by (sorter dp k) (stable_sort (sorter dp k) xs)"
  by (rule ordered_stable_sort) (erule sorter_total, erule (1) sorter_trans)

lemma stable_sort_idem:
  "stable_sort (sorter dp k) (stable_sort (sorter dp k) xs) = stable_sort (sorter dp k) xs"
  by (rule stable_sort_ordered) (rule ordered_sorter)

text \<open>
  The sort is stable: the records that tie with a given one keep their relative order.
\<close>

lemma ties_sorter: "ties (sorter dp k) x y \<longleftrightarrow> skey dp k x = skey dp k y"
  unfolding ties_def sorter_positive by (cases "descending k") auto

lemma insert_by_stable:
  "filter (\<lambda>y. K = skey dp k y) (insert_by (sorter dp k) a ys)
     = filter (\<lambda>y. K = skey dp k y) (a # ys)"
proof (induction ys)
  case Nil
  show ?case by simp
next
  case (Cons y ys)
  show ?case
  proof (cases "positive (sorter dp k a y)")
    case True
    then have "skey dp k a \<noteq> skey dp k y"
      unfolding sorter_positive by (cases "descending k") auto
    then show ?thesis using True Cons.IH by auto
  next
    case False
    then show ?thesis by simp
  qed
qed

lemma stable_sort_stable:
  "filter (\<lambda>y. K = skey dp k y) (stable_sort (sorter dp k) xs) = filter (\<lambda>y. K = skey dp k y) xs"
proof (induction xs)
  case Nil
  show ?case by simp
next
  case (Cons a xs)
  have "filter (\<lambda>y. K = skey dp k y) (stable_sort (sorter dp k) (a # xs))
          = filter (\<lambda>y. K = skey dp k y) (a # stable_sort (sorter dp k) xs)"
    by (simp only: stable_sort.simps insert_by_stable)
  also have "\<dots> = filter (\<lambda>y. K = skey dp k y) (a # xs)"
    by (simp only: filter.simps Cons.IH)
  finally show ?case .
qed

lemma stable_sort_ties:
  "filter (ties (sorter dp k) x) (stable_sort (sorter dp k) xs) = filter (ties (sorter dp k) x) xs"
  unfolding ties_sorter by (rule stable_sort_stable)

text \<open>
  An absent field and text that is no number or no date go to negative infinity, and a
  record with such a key comes first in ascending and last in descending order.
\<close>

lemma undefined_and_abc:
  "toBuild Undefined = NInf" "toBuild (Str ''abc'') = NInf" "toDate dp Undefined = NInf"
  "dp s = None \<Longrightarrow> toDate dp (Str s) = NInf"
  by (simp_all add: toBuild_def toDate_def str_defs num_defs)

lemma missing_build_sorts_lowest:
  assumes "toBuild (build a) = NInf" "isFinite (toBuild (build b))"
  shows "negative (sorter dp BuildAsc a b)" "positive (sorter dp BuildAsc b a)"
    "positive (sorter dp BuildDesc a b)" "negative (sorter dp BuildDesc b a)"
  using assms by (cases "toBuild (build b)"; auto simp: js_or_def)+

lemma missing_date_sorts_lowest:
  assumes "toDate dp (date a) = NInf" "isFinite (toDate dp (date b))"
  shows "negative (sorter dp DateAsc a b)" "positive (sorter dp DateAsc b a)"
    "positive (sorter dp DateDesc a b)" "negative (sorter dp DateDesc b a)"
  using assms by (cases "toDate dp (date b)"; auto simp: js_or_def)+

lemma build_desc_3_1_undefined_2:
  assumes "build r3 = Num 3" "build r1 = Num 1" "build ru = Undefined" "build r2 = Num 2"
  shows "stable_sort (sorter dp BuildDesc) [r3, r1, ru, r2] = [r3, r2, r1, ru]"
  using assms by (simp add: toBuild_def js_or_def to_double_small)

text \<open>
  C7. A build or a date that is \<open>null\<close>, and a build that is the empty string, are missing
  values: the renderer shows no build for \<open>null\<close> and \<open>filter(Boolean)\<close> skips them. Yet
  \<open>toBuild\<close> turns \<open>null\<close> and the empty string into 0 and \<open>toDate\<close> turns \<open>null\<close> into 0,
  not into negative infinity. So in \<open>build-asc\<close> a release whose build is \<open>null\<close> comes
  after build -1 and after a release whose build is \<open>abc\<close>, and in \<open>date-asc\<close> a release
  whose date is \<open>null\<close> comes after a release of 1969: it does not sort lowest.
\<close>

theorem null_is_not_missing:
  "\<not> truthy Null \<and> \<not> present Null
   \<and> toBuild Null = Fin 0
   \<and> toDate date_only Null = Fin 0
   \<and> \<not> truthy (Str []) \<and> \<not> present (Str [])
   \<and> toBuild (Str []) = Fin 0
   \<and> toBuild (Str ''abc'') = NInf
   \<and> stable_sort (sorter date_only BuildAsc)
        [rel (Str ''1.1.0'') Undefined Null, rel (Str ''1.0.0'') Undefined (Num (- 1))]
      = [rel (Str ''1.0.0'') Undefined (Num (- 1)), rel (Str ''1.1.0'') Undefined Null]
   \<and> stable_sort (sorter date_only BuildAsc)
        [rel (Str ''1.0.0'') Undefined Null, rel (Str ''1.1.0'') Undefined (Str ''abc'')]
      = [rel (Str ''1.1.0'') Undefined (Str ''abc''), rel (Str ''1.0.0'') Undefined Null]
   \<and> stable_sort (sorter date_only DateAsc)
        [rel (Str ''1.1.0'') Null Undefined, rel (Str ''1.0.0'') (Str ''1969-07-20'') Undefined]
      = [rel (Str ''1.0.0'') (Str ''1969-07-20'') Undefined, rel (Str ''1.1.0'') Null Undefined]"
  by (simp add: rel_def str_defs num_defs date_defs)

section \<open>The filter\<close>

text \<open>
  Unless a field is the number 0, the haystack of the code is the specification's.
\<close>

lemma filter_truthy_present:
  "Num 0 \<notin> set vs \<Longrightarrow> filter truthy vs = filter present vs"
proof (induction vs)
  case Nil
  show ?case by simp
next
  case (Cons v vs)
  then show ?case by (cases v) auto
qed

lemma hay_spec_hay:
  assumes "version it \<noteq> Num 0" "date it \<noteq> Num 0" "channel it \<noteq> Num 0" "build it \<noteq> Num 0"
  shows "hay it = spec_hay it"
proof -
  have "Num 0 \<notin> set ([version it, date it, channel it, build it]
          @ map Str (or_empty (changes it)) @ map Str (or_empty (tags it)))"
    using assms by auto
  then have "filter truthy ([version it, date it, channel it, build it]
                 @ map Str (or_empty (changes it)) @ map Str (or_empty (tags it)))
             = filter present ([version it, date it, channel it, build it]
                 @ map Str (or_empty (changes it)) @ map Str (or_empty (tags it)))"
    by (rule filter_truthy_present)
  then show ?thesis
    unfolding hay_def spec_hay_def by (rule arg_cong)
qed

lemma includes_str_Nil: "includes_str h []"
  by (cases h) simp_all

lemma matches_spec_matches:
  assumes "version it \<noteq> Num 0" "date it \<noteq> Num 0" "channel it \<noteq> Num 0" "build it \<noteq> Num 0"
  shows "matches (trim (toLowerCase input)) it = spec_matches input it"
  using hay_spec_hay [OF assms] by (simp add: matches_def spec_matches_def includes_str_Nil)

text \<open>
  C6. A release whose build is the number 0 and the query \<open>0\<close>: the specification's
  haystack is \<open>1.2.3 0\<close> and the record matches; \<open>filter(Boolean)\<close> drops the 0, the
  haystack of the code is \<open>1.2.3\<close>, and the record is filtered out.
\<close>

theorem filter_drops_build_zero:
  "\<not> matches (trim (toLowerCase ''0'')) (rel (Str ''1.2.3'') Undefined (Num 0))
   \<and> spec_matches ''0'' (rel (Str ''1.2.3'') Undefined (Num 0))
   \<and> filtered (snd (applyFilter date_only ''0''
        (init_state\<lparr>data := [rel (Str ''1.2.3'') Undefined (Num 0)]\<rparr>))) = []"
  by (simp add: rel_def str_defs filter_defs state_defs)

section \<open>Selecting a sort\<close>

lemma get_prop_registered: "map_of sorters name = Some k \<Longrightarrow> get_prop name = Some (Registered k)"
  by (simp add: get_prop_def)

lemma in_sorters_registered: "map_of sorters name = Some k \<Longrightarrow> in_sorters name"
  by (simp add: in_sorters_def get_prop_def)

lemma applyFilter_registered:
  "map_of sorters (sort_name st) = Some k \<Longrightarrow>
   applyFilter dp input st =
     (None, st\<lparr>filtered := stable_sort (sorter dp k)
                              (filter (matches (trim (toLowerCase input))) (data st))\<rparr>)"
  by (simp add: applyFilter_def get_prop_registered)

lemma setSort_registered:
  "map_of sorters new = Some k \<Longrightarrow>
   setSort dp new st =
     (None, st\<lparr>sort_name := new, filtered := stable_sort (sorter dp k) (filtered st)\<rparr>)"
  by (simp add: setSort_def get_prop_registered in_sorters_registered)

lemma applyFilter_ordered:
  "map_of sorters (sort_name st) = Some k \<Longrightarrow>
   ordered_by (sorter dp k) (filtered (snd (applyFilter dp input st)))"
  by (simp add: applyFilter_registered ordered_sorter)

lemma setSort_ordered:
  "map_of sorters new = Some k \<Longrightarrow> ordered_by (sorter dp k) (filtered (snd (setSort dp new st)))"
  by (simp add: setSort_registered ordered_sorter)

lemma load_ordered:
  "ordered_by (sorter dp BuildAsc) (filtered (snd (load dp (Some arr) None st)))"
  by (simp add: load_def get_prop_def sorters_def ordered_sorter)

lemma setSort_unknown_name:
  assumes "\<not> in_sorters v" "map_of sorters (sort_name st) = Some k"
    and "ordered_by (sorter dp k) (filtered st)"
  shows "setSort dp v st = (None, st)"
  using assms by (simp add: setSort_def get_prop_registered stable_sort_ordered)

text \<open>
  C9. \<open>toString\<close> is not a key of the registry, yet \<open>'toString' in sorters\<close> holds through
  \<open>Object.prototype\<close>: \<open>setSort('toString')\<close> replaces the sort key \<open>build-desc\<close> of
  the initial state by \<open>toString\<close>. \<open>setSort('__proto__')\<close> replaces it too, and then
  throws, the comparator being an object.
\<close>

theorem setSort_accepts_inherited_name:
  "map_of sorters ''toString'' = None
   \<and> sort_name init_state = ''build-desc''
   \<and> setSort date_only ''toString'' init_state = (None, init_state\<lparr>sort_name := ''toString''\<rparr>)
   \<and> map_of sorters ''__proto__'' = None
   \<and> setSort date_only ''__proto__'' init_state
       = (Some TypeError, init_state\<lparr>sort_name := ''__proto__''\<rparr>)"
  by (simp add: state_defs)

text \<open>
  What re-sorting the view does keep. From a state whose sort key is a registered name,
  after the filter ran with a query, \<open>setSort\<close> with a registered name yields the records
  of the full pipeline (filter the dataset with the same query, sort with the new
  comparator), ordered by the new comparator. Records that tie under the new comparator
  keep the order they have in the view, and in the full pipeline the order they have in
  the dataset; the two sequences are identical when no two different records of the view
  tie under the new comparator.
\<close>

lemma setSort_resorts_view:
  assumes old: "map_of sorters old = Some k" and new: "map_of sorters new = Some k'"
    and st0: "sort_name st0 = old"
  shows "mset (filtered (snd (setSort dp new (snd (applyFilter dp input st0)))))
           = mset (filtered (snd (applyFilter dp input (st0\<lparr>sort_name := new\<rparr>))))
       \<and> ordered_by (sorter dp k') (filtered (snd (setSort dp new (snd (applyFilter dp input st0)))))
       \<and> ordered_by (sorter dp k') (filtered (snd (applyFilter dp input (st0\<lparr>sort_name := new\<rparr>))))
       \<and> filter (ties (sorter dp k') x)
            (filtered (snd (setSort dp new (snd (applyFilter dp input st0)))))
          = filter (ties (sorter dp k') x) (filtered (snd (applyFilter dp input st0)))
       \<and> filter (ties (sorter dp k') x)
            (filtered (snd (applyFilter dp input (st0\<lparr>sort_name := new\<rparr>))))
          = filter (ties (sorter dp k') x)
              (filter (matches (trim (toLowerCase input))) (data st0))
       \<and> ((\<forall>x \<in> set (filtered (snd (applyFilter dp input st0))).
              \<forall>y \<in> set (filtered (snd (applyFilter dp input st0))).
                 ties (sorter dp k') x y \<longrightarrow> x = y)
            \<longrightarrow> filtered (snd (setSort dp new (snd (applyFilter dp input st0))))
                 = filtered (snd (applyFilter dp input (st0\<lparr>sort_name := new\<rparr>))))"
proof -
  define F where "F = filter (matches (trim (toLowerCase input))) (data st0)"
  have view: "filtered (snd (applyFilter dp input st0)) = stable_sort (sorter dp k) F"
    using old st0 by (simp add: applyFilter_registered F_def)
  have resorted: "filtered (snd (setSort dp new (snd (applyFilter dp input st0))))
                    = stable_sort (sorter dp k') (stable_sort (sorter dp k) F)"
    using new view by (simp add: setSort_registered)
  have full: "filtered (snd (applyFilter dp input (st0\<lparr>sort_name := new\<rparr>)))
                = stable_sort (sorter dp k') F"
    using new by (simp add: applyFilter_registered F_def)
  have same: "stable_sort (sorter dp k') (stable_sort (sorter dp k) F) = stable_sort (sorter dp k') F"
    if "\<forall>x \<in> set F. \<forall>y \<in> set F. ties (sorter dp k') x y \<longrightarrow> x = y"
  proof (rule ordered_unique)
    show "ordered_by (sorter dp k') (stable_sort (sorter dp k') (stable_sort (sorter dp k) F))"
      by (rule ordered_sorter)
    show "ordered_by (sorter dp k') (stable_sort (sorter dp k') F)"
      by (rule ordered_sorter)
    show "mset (stable_sort (sorter dp k') (stable_sort (sorter dp k) F))
            = mset (stable_sort (sorter dp k') F)"
      by simp
    show "\<And>x y. x \<in> set (stable_sort (sorter dp k') (stable_sort (sorter dp k) F)) \<Longrightarrow>
            y \<in> set (stable_sort (sorter dp k') (stable_sort (sorter dp k) F)) \<Longrightarrow>
            ties (sorter dp k') x y \<Longrightarrow> x = y"
      using that by simp
  qed
  show ?thesis
    unfolding resorted full view F_def [symmetric] using same
    by (simp add: ordered_sorter stable_sort_ties)
qed

text \<open>
  C2. Two releases of one date and one build, loaded in the order 2.0.0, 1.0.0 with
  \<open>?sort=semver-asc\<close>, stand in the view as 1.0.0, 2.0.0. Changing only the sort key,
  \<open>setSort('date-asc')\<close>, keeps that order, since the two tie and the view is what it
  sorts; the full pipeline with \<open>date-asc\<close>, which sorts the dataset, returns 2.0.0, 1.0.0.
\<close>

theorem resort_differs_from_full_pipeline:
  "filtered (snd (load date_only
       (Some [rel (Str ''2.0.0'') (Str ''2024-01-15'') (Num 1),
              rel (Str ''1.0.0'') (Str ''2024-01-15'') (Num 1)])
       (Some ''semver-asc'') init_state))
     = [rel (Str ''1.0.0'') (Str ''2024-01-15'') (Num 1),
        rel (Str ''2.0.0'') (Str ''2024-01-15'') (Num 1)]
   \<and> filtered (snd (setSort date_only ''date-asc'' (snd (load date_only
       (Some [rel (Str ''2.0.0'') (Str ''2024-01-15'') (Num 1),
              rel (Str ''1.0.0'') (Str ''2024-01-15'') (Num 1)])
       (Some ''semver-asc'') init_state))))
     = [rel (Str ''1.0.0'') (Str ''2024-01-15'') (Num 1),
        rel (Str ''2.0.0'') (Str ''2024-01-15'') (Num 1)]
   \<and> filtered (snd (applyFilter date_only []
       ((snd (load date_only
          (Some [rel (Str ''2.0.0'') (Str ''2024-01-15'') (Num 1),
                 rel (Str ''1.0.0'') (Str ''2024-01-15'') (Num 1)])
          (Some ''semver-asc'') init_state))\<lparr>sort_name := ''date-asc''\<rparr>)))
     = [rel (Str ''2.0.0'') (Str ''2024-01-15'') (Num 1),
        rel (Str ''1.0.0'') (Str ''2024-01-15'') (Num 1)]"
  by (simp add: rel_def str_defs num_defs ver_defs date_defs filter_defs state_defs)

end
